theory Spec2Isabelle
  imports Main "HOL-Library.List_Lexorder" "HOL-Library.Char_ord"
begin

section \<open>Strings\<close>

text \<open>
  Go strings are byte sequences; they are modelled as \<open>string\<close> (a list of 8-bit
  characters).  Indices are byte offsets.
\<close>

text \<open>\<^verbatim>\<open>strings.Contains(s, substr)\<close>.\<close>

fun Contains :: "string \<Rightarrow> string \<Rightarrow> bool" where
  "Contains [] substr = (substr = [])"
| "Contains (c # cs) substr = (take (length substr) (c # cs) = substr \<or> Contains cs substr)"

text \<open>
  \<^verbatim>\<open>strings.SplitN(s, sep, 2)\<close> for a separator of one byte: the string is cut at the first
  occurrence of the separator; without an occurrence the result has the one element \<open>s\<close>.
\<close>

definition SplitN2 :: "string \<Rightarrow> char \<Rightarrow> string list" where
  "SplitN2 s sep =
     (if sep \<in> set s
      then [takeWhile (\<lambda>c. c \<noteq> sep) s, tl (dropWhile (\<lambda>c. c \<noteq> sep) s)]
      else [s])"

text \<open>
  \<^verbatim>\<open>strings.TrimSpace\<close> removes leading and trailing white space as defined by Unicode
  (\<^verbatim>\<open>unicode.IsSpace\<close>).  On the UTF-8 bytes these are the six ASCII bytes
  \<open>\t \n \v \f \r\<close> and space, and the encodings of U+0085, U+00A0, U+1680, U+2000 to U+200A,
  U+2028, U+2029, U+202F, U+205F and U+3000.  \<open>spaceWidth s\<close> is the number of bytes of
  the white-space character at the front of \<open>s\<close>, and 0 when \<open>s\<close> does not start with one.
\<close>

definition asciiSpace :: "char \<Rightarrow> bool" where
  "asciiSpace c = (c = CHR 0x09 \<or> c = CHR 0x0A \<or> c = CHR 0x0B \<or> c = CHR 0x0C \<or> c = CHR 0x0D \<or> c = CHR 0x20)"

fun spaceWidth :: "string \<Rightarrow> nat" where
  "spaceWidth [] = 0"
| "spaceWidth [c] = (if asciiSpace c then 1 else 0)"
| "spaceWidth [c, d] =
     (if asciiSpace c then 1
      else if c = CHR 0xC2 \<and> (d = CHR 0x85 \<or> d = CHR 0xA0) then 2 else 0)"
| "spaceWidth (c # d # e # rest) =
     (if asciiSpace c then 1
      else if c = CHR 0xC2 \<and> (d = CHR 0x85 \<or> d = CHR 0xA0) then 2
      else if c = CHR 0xE1 \<and> d = CHR 0x9A \<and> e = CHR 0x80 then 3
      else if c = CHR 0xE2 \<and> d = CHR 0x80 \<and>
              (e \<in> set [CHR 0x80, CHR 0x81, CHR 0x82, CHR 0x83, CHR 0x84, CHR 0x85, CHR 0x86,
                         CHR 0x87, CHR 0x88, CHR 0x89, CHR 0x8A, CHR 0xA8, CHR 0xA9, CHR 0xAF])
           then 3
      else if c = CHR 0xE2 \<and> d = CHR 0x81 \<and> e = CHR 0x9F then 3
      else if c = CHR 0xE3 \<and> d = CHR 0x80 \<and> e = CHR 0x80 then 3
      else 0)"

text \<open>The same for the white-space character at the end, on the reversed bytes.\<close>

fun spaceWidthRev :: "string \<Rightarrow> nat" where
  "spaceWidthRev [] = 0"
| "spaceWidthRev [c] = (if asciiSpace c then 1 else 0)"
| "spaceWidthRev [d, c] =
     (if asciiSpace d then 1
      else if c = CHR 0xC2 \<and> (d = CHR 0x85 \<or> d = CHR 0xA0) then 2 else 0)"
| "spaceWidthRev (e # d # c # rest) =
     (if asciiSpace e then 1
      else if d = CHR 0xC2 \<and> (e = CHR 0x85 \<or> e = CHR 0xA0) then 2
      else if c = CHR 0xE1 \<and> d = CHR 0x9A \<and> e = CHR 0x80 then 3
      else if c = CHR 0xE2 \<and> d = CHR 0x80 \<and>
              (e \<in> set [CHR 0x80, CHR 0x81, CHR 0x82, CHR 0x83, CHR 0x84, CHR 0x85, CHR 0x86,
                         CHR 0x87, CHR 0x88, CHR 0x89, CHR 0x8A, CHR 0xA8, CHR 0xA9, CHR 0xAF])
           then 3
      else if c = CHR 0xE2 \<and> d = CHR 0x81 \<and> e = CHR 0x9F then 3
      else if c = CHR 0xE3 \<and> d = CHR 0x80 \<and> e = CHR 0x80 then 3
      else 0)"

lemma spaceWidth_le: "spaceWidth s \<le> length s"
  by (induction s rule: spaceWidth.induct) auto

lemma spaceWidthRev_le: "spaceWidthRev s \<le> length s"
  by (induction s rule: spaceWidthRev.induct) auto

function TrimLeft :: "string \<Rightarrow> string" where
  "TrimLeft s = (if spaceWidth s = 0 then s else TrimLeft (drop (spaceWidth s) s))"
  by pat_completeness auto
termination
proof (relation "measure length")
  show "wf (measure length)" by simp
next
  fix s :: string
  assume "spaceWidth s \<noteq> 0"
  moreover have "spaceWidth s \<le> length s" by (rule spaceWidth_le)
  ultimately show "(drop (spaceWidth s) s, s) \<in> measure length" by simp
qed

function TrimRightRev :: "string \<Rightarrow> string" where
  "TrimRightRev s = (if spaceWidthRev s = 0 then s else TrimRightRev (drop (spaceWidthRev s) s))"
  by pat_completeness auto
termination
proof (relation "measure length")
  show "wf (measure length)" by simp
next
  fix s :: string
  assume "spaceWidthRev s \<noteq> 0"
  moreover have "spaceWidthRev s \<le> length s" by (rule spaceWidthRev_le)
  ultimately show "(drop (spaceWidthRev s) s, s) \<in> measure length" by simp
qed

declare TrimLeft.simps [simp del] TrimRightRev.simps [simp del]

definition TrimSpace :: "string \<Rightarrow> string" where
  "TrimSpace s = rev (TrimRightRev (rev (TrimLeft s)))"

section \<open>Dynamic values\<close>

text \<open>
  The renderer reads the caller's data through \<^verbatim>\<open>reflect.Value\<close>.  A valid value has a
  type, of which the code uses the method set and the kind, and a content.  \<open>Val ms sh\<close>
  is a valid value: \<open>ms\<close> lists the methods that \<^verbatim>\<open>Type().Method(i)\<close> enumerates, each
  with its name, the \<^verbatim>\<open>NumIn()\<close> of its function type (the receiver counts, so 1 means no
  argument) and the values that \<^verbatim>\<open>Call(nil)\<close> returns; \<open>sh\<close> is the kind with the
  content.  The kinds are bool, int, string, slice (\<open>None\<close> is the nil slice), array, map
  with string keys (\<open>None\<close> is the nil map), struct with its exported fields in order,
  pointer (\<open>None\<close> is nil, otherwise the address and the value pointed to) and interface
  (\<open>None\<close> is the nil interface).  The zero \<^verbatim>\<open>reflect.Value\<close>, for which \<^verbatim>\<open>IsValid()\<close> is
  false, is \<open>None :: val option\<close>.
\<close>

datatype val = Val (methods: "(string \<times> nat \<times> val list) list") (shape: shape)
and shape =
    VBool bool
  | VInt int
  | VString string
  | VSlice "val list option"
  | VArray "val list"
  | VMap "(string \<times> val) list option"
  | VStruct "(string \<times> val) list"
  | VPtr "(nat \<times> val) option"
  | VInterface "val option"

text \<open>
  Errors.  \<open>parseError line message\<close> is the parser's error type; the other constructors
  are the error of \<^verbatim>\<open>lookup\<close>, the error of the static partial provider and an error of
  a provider of the caller.  \<open>panic\<close> is not a returned error but a run-time panic of
  the Go code (an index out of range); it unwinds through every caller, so it is
  propagated like an error.
\<close>

datatype error =
    parseError nat string
  | missingVariable string
  | ErrPartialNotFound string
  | providerError string
  | panic string

section \<open>Value resolution\<close>

text \<open>
  The loop over the methods of a value in \<^verbatim>\<open>lookup\<close>: the first method with the name and
  with \<^verbatim>\<open>NumIn() == 1\<close> is called; the result is what \<^verbatim>\<open>Call(nil)\<close> returns.
\<close>

fun findMethod :: "(string \<times> nat \<times> val list) list \<Rightarrow> string \<Rightarrow> val list option" where
  "findMethod [] name = None"
| "findMethod ((mname, numIn, res) # ms) name =
     (if mname = name \<and> numIn = 1 then Some res else findMethod ms name)"

text \<open>\<^verbatim>\<open>Value.MapIndex\<close> with a string key; the zero value for a nil map or a missing key.\<close>

fun MapIndex :: "(string \<times> val) list option \<Rightarrow> string \<Rightarrow> val option" where
  "MapIndex None key = None"
| "MapIndex (Some kvs) key = map_of kvs key"

text \<open>\<^verbatim>\<open>Value.FieldByName\<close>; the zero value when the struct has no such field.\<close>

definition FieldByName :: "(string \<times> val) list \<Rightarrow> string \<Rightarrow> val option" where
  "FieldByName fs name = map_of fs name"

text \<open>
  The inner loop \<^verbatim>\<open>for v.IsValid()\<close> of \<^verbatim>\<open>lookup\<close> for one context: it either returns
  from \<^verbatim>\<open>lookup\<close> or goes on with the next context (\<^verbatim>\<open>continue Outer\<close>, or the loop
  condition fails).  \<^verbatim>\<open>Call(nil)[0]\<close> panics for a method without a result.
\<close>

datatype step = Return "error + val option" | ContinueOuter

fun lookupValue :: "val option \<Rightarrow> string \<Rightarrow> step" where
  "lookupValue None name = ContinueOuter"
| "lookupValue (Some (Val ms sh)) name =
     (case findMethod ms name of
        Some [] \<Rightarrow> Return (Inl (panic ''index out of range [0] with length 0''))
      | Some (r # rs) \<Rightarrow> Return (Inr (Some r))
      | None \<Rightarrow>
          if name = ''.'' then Return (Inr (Some (Val ms sh)))
          else (case sh of
                  VPtr None \<Rightarrow> ContinueOuter
                | VPtr (Some (a, v)) \<Rightarrow> lookupValue (Some v) name
                | VInterface e \<Rightarrow> lookupValue e name
                | VStruct fs \<Rightarrow>
                    (case FieldByName fs name of
                       Some ret \<Rightarrow> Return (Inr (Some ret))
                     | None \<Rightarrow> ContinueOuter)
                | VMap m \<Rightarrow>
                    (case MapIndex m name of
                       Some ret \<Rightarrow> Return (Inr (Some ret))
                     | None \<Rightarrow> ContinueOuter)
                | _ \<Rightarrow> ContinueOuter))"

text \<open>The loop \<^verbatim>\<open>Outer\<close> over the context chain, and what follows it.\<close>

fun scanChain :: "val option list \<Rightarrow> string \<Rightarrow> bool \<Rightarrow> error + val option" where
  "scanChain [] name errMissing =
     (if errMissing then Inl (missingVariable name) else Inr None)"
| "scanChain (ctx # rest) name errMissing =
     (case lookupValue ctx name of
        Return r \<Rightarrow> r
      | ContinueOuter \<Rightarrow> scanChain rest name errMissing)"

lemma Contains_single: "Contains s [c] = (c \<in> set s)"
  by (induction s) auto

lemma SplitN2_head_length:
  "sep \<in> set s \<Longrightarrow> length (SplitN2 s sep ! 0) < length s"
proof -
  assume a: "sep \<in> set s"
  have "length (takeWhile (\<lambda>c. c \<noteq> sep) s) < length s"
    using a by (induction s) auto
  then show ?thesis using a by (simp add: SplitN2_def)
qed

lemma SplitN2_tail_length:
  "sep \<in> set s \<Longrightarrow> length (SplitN2 s sep ! Suc 0) < length s"
proof -
  assume a: "sep \<in> set s"
  have "length (tl (dropWhile (\<lambda>c. c \<noteq> sep) s)) < length s"
    using a by (induction s) (auto simp: less_Suc_eq_le length_dropWhile_le)
  then show ?thesis using a by (simp add: SplitN2_def)
qed

function lookup :: "val option list \<Rightarrow> string \<Rightarrow> bool \<Rightarrow> error + val option" where
  "lookup contextChain name errMissing =
     (if name \<noteq> ''.'' \<and> Contains name ''.'' then
        (let parts = SplitN2 name (CHR ''.'') in
         case lookup contextChain (parts ! 0) errMissing of
           Inl err \<Rightarrow> Inl err
         | Inr v \<Rightarrow> lookup [v] (parts ! 1) errMissing)
      else scanChain contextChain name errMissing)"
  by pat_completeness auto
termination
proof (relation "measure (\<lambda>(contextChain, name, errMissing). length name)")
  show "wf (measure (\<lambda>(contextChain, name, errMissing). length name))" by simp
next
  fix contextChain :: "val option list" and name :: string and errMissing :: bool
    and x :: "string list"
  assume "name \<noteq> ''.'' \<and> Contains name ''.''" and "x = SplitN2 name (CHR ''.'')"
  then show "((contextChain, x ! 0, errMissing), contextChain, name, errMissing)
      \<in> measure (\<lambda>(contextChain, name, errMissing). length name)"
    by (simp add: Contains_single SplitN2_head_length)
next
  fix contextChain :: "val option list" and name :: string and errMissing :: bool
    and x :: "string list" and x2 :: "val option"
  assume "name \<noteq> ''.'' \<and> Contains name ''.''" and "x = SplitN2 name (CHR ''.'')"
  then show "(([x2], x ! 1, errMissing), contextChain, name, errMissing)
      \<in> measure (\<lambda>(contextChain, name, errMissing). length name)"
    by (simp add: Contains_single SplitN2_tail_length)
qed

declare lookup.simps [simp del]

section \<open>Templates and the parser\<close>

text \<open>
  \<^verbatim>\<open>s[a:b]\<close>.  It is used where the bounds hold by construction; the one slice of the
  parser that can be out of bounds, \<^verbatim>\<open>tag[1 : len(tag)-1]\<close> of a tag of one byte, is a
  branch of \<open>parse\<close> and \<open>parseSection\<close>.
\<close>

definition slice :: "string \<Rightarrow> nat \<Rightarrow> nat \<Rightarrow> string" where
  "slice s a b = take (b - a) (drop a s)"

text \<open>
  A \<^verbatim>\<open>PartialProvider\<close> is an interface value that points to a provider object.
  \<open>EmptyProvider\<close> is the address of the global \<^verbatim>\<open>EmptyProvider\<close>, which has no state;
  \<open>Provider a\<close> is the address of an object of the caller.  What \<^verbatim>\<open>Get\<close> of such an
  object returns is not part of the reference: it is read from the state of the providers
  when a template is rendered (section Partial providers).
\<close>

datatype PartialProvider = EmptyProvider | Provider nat

text \<open>
  The elements of the tree: \<^verbatim>\<open>textElement{text}\<close>, \<^verbatim>\<open>varElement{name, raw}\<close>,
  \<^verbatim>\<open>sectionElement{name, inverted, startline, elems}\<close> and
  \<^verbatim>\<open>partialElement{name, indent, prov}\<close>.
\<close>

datatype element =
    textElement string
  | varElement string bool
  | sectionElement string bool nat "element list"
  | partialElement string string PartialProvider

text \<open>
  \<^verbatim>\<open>Template\<close>, with the fields of the source.  \<open>p\<close> is the byte offset of the cursor
  and \<open>curline\<close> the line counter; both only grow, so they are natural numbers.
\<close>

record Template =
  data :: string
  otag :: string
  ctag :: string
  p :: nat
  curline :: nat
  elems :: "element list"
  partial :: PartialProvider
  errmiss :: bool

text \<open>
  \<^verbatim>\<open>readString\<close>.  \<open>readStringFrom tmpl s i newlines\<close> is the loop at index \<open>i\<close>; the
  result is the text, whether the end of the input was reached (\<^verbatim>\<open>io.EOF\<close>) and the
  template with the cursor and the line counter moved.  The loop reads \<^verbatim>\<open>s[0]\<close>, which
  panics for the empty string.
\<close>

function readStringFrom :: "Template \<Rightarrow> string \<Rightarrow> nat \<Rightarrow> nat \<Rightarrow> string \<times> bool \<times> Template" where
  "readStringFrom tmpl s i newlines =
     (if i + length s > length (data tmpl) then (drop (p tmpl) (data tmpl), True, tmpl)
      else
        let newlines' = (if data tmpl ! i = CHR 0x0A then newlines + 1 else newlines) in
        if data tmpl ! i \<noteq> s ! 0 then readStringFrom tmpl s (i + 1) newlines'
        else if list_all (\<lambda>j. s ! j = data tmpl ! (i + j)) [1..<length s] then
          (let e = i + length s in
           (slice (data tmpl) (p tmpl) e, False,
            tmpl\<lparr>p := e, curline := curline tmpl + newlines'\<rparr>))
        else readStringFrom tmpl s (i + 1) newlines')"
  by pat_completeness auto
termination
  by (relation "measure (\<lambda>(tmpl, s, i, newlines). Suc (length (data tmpl)) - i)") auto

declare readStringFrom.simps [simp del]

definition readString :: "Template \<Rightarrow> string \<Rightarrow> error + (string \<times> bool \<times> Template)" where
  "readString tmpl s =
     (if s = [] then Inl (panic ''index out of range'')
      else Inr (readStringFrom tmpl s (p tmpl) 0))"

text \<open>
  \<^verbatim>\<open>readText\<close>.  \<open>TextReadingResult text padding mayStandalone\<close>; \<open>scanBack\<close> is the
  loop that walks back over the spaces and tabs in front of the open delimiter.
\<close>

datatype textReadingResult = TextReadingResult string string bool

function scanBack :: "string \<Rightarrow> nat \<Rightarrow> nat \<Rightarrow> nat" where
  "scanBack d i pPrev =
     (if i > pPrev then
        (if d ! (i - 1) \<noteq> CHR '' '' \<and> d ! (i - 1) \<noteq> CHR 0x09 then i
         else scanBack d (i - 1) pPrev)
      else i)"
  by pat_completeness auto
termination
  by (relation "measure (\<lambda>(d, i, pPrev). i)") auto

declare scanBack.simps [simp del]

definition readText :: "Template \<Rightarrow> error + (textReadingResult \<times> bool \<times> Template)" where
  "readText tmpl =
     (let pPrev = p tmpl in
      case readString tmpl (otag tmpl) of
        Inl err \<Rightarrow> Inl err
      | Inr (txt, eof, tmpl1) \<Rightarrow>
          if eof then Inr (TextReadingResult txt [] False, True, tmpl1)
          else
            let i = scanBack (data tmpl1) (p tmpl1 - length (otag tmpl1)) pPrev;
                mayStandalone = (i = 0 \<or> data tmpl1 ! (i - 1) = CHR 0x0A)
            in
              if mayStandalone then
                Inr (TextReadingResult (slice (data tmpl1) pPrev i)
                       (slice (data tmpl1) i (p tmpl1 - length (otag tmpl1))) True, False, tmpl1)
              else
                Inr (TextReadingResult (slice (data tmpl1) pPrev (p tmpl1 - length (otag tmpl1)))
                       [] False, False, tmpl1))"

text \<open>
  \<^verbatim>\<open>readTag\<close>.  \<open>TagReadingResult tag standalone\<close>; \<open>findEow\<close> is the loop for
  \<^verbatim>\<open>eow\<close>: the index of the first byte after the tag that is neither space nor tab, and
  the position after the tag when there is none.
\<close>

datatype tagReadingResult = TagReadingResult string bool

definition SkipWhitespaceTagTypes :: string where
  "SkipWhitespaceTagTypes = ''#^/<>=!''"

function findEow :: "string \<Rightarrow> nat \<Rightarrow> nat \<Rightarrow> nat" where
  "findEow d i eow =
     (if i < length d then
        (if \<not> (d ! i = CHR '' '' \<or> d ! i = CHR 0x09) then i else findEow d (i + 1) eow)
      else eow)"
  by pat_completeness auto
termination
  by (relation "measure (\<lambda>(d, i, eow). length d - i)") auto

declare findEow.simps [simp del]

definition readTag :: "Template \<Rightarrow> bool \<Rightarrow> error + (tagReadingResult \<times> Template)" where
  "readTag tmpl mayStandalone =
     (case (if p tmpl < length (data tmpl) \<and> data tmpl ! p tmpl = CHR ''{''
            then readString tmpl (CHR ''}'' # ctag tmpl)
            else readString tmpl (ctag tmpl)) of
        Inl err \<Rightarrow> Inl err
      | Inr (txt, eof, tmpl1) \<Rightarrow>
          if eof then Inl (parseError (curline tmpl1) ''unmatched open tag'')
          else
            let txt' = take (length txt - length (ctag tmpl1)) txt;
                tag = TrimSpace txt'
            in
              if length tag = 0 then Inl (parseError (curline tmpl1) ''empty tag'')
              else
                let eow = findEow (data tmpl1) (p tmpl1) (p tmpl1) in
                if mayStandalone then
                  (if \<not> Contains SkipWhitespaceTagTypes (take 1 tag) then
                     Inr (TagReadingResult tag False, tmpl1)
                   else if eow = length (data tmpl1) then
                     Inr (TagReadingResult tag True, tmpl1\<lparr>p := eow\<rparr>)
                   else if eow < length (data tmpl1) \<and> data tmpl1 ! eow = CHR 0x0A then
                     Inr (TagReadingResult tag True,
                          tmpl1\<lparr>p := eow + 1, curline := curline tmpl1 + 1\<rparr>)
                   else if eow + 1 < length (data tmpl1) \<and> data tmpl1 ! eow = CHR 0x0D
                           \<and> data tmpl1 ! (eow + 1) = CHR 0x0A then
                     Inr (TagReadingResult tag True,
                          tmpl1\<lparr>p := eow + 2, curline := curline tmpl1 + 1\<rparr>)
                   else Inr (TagReadingResult tag False, tmpl1))
                else Inr (TagReadingResult tag True, tmpl1))"

definition parsePartial :: "Template \<Rightarrow> string \<Rightarrow> string \<Rightarrow> error + element" where
  "parsePartial tmpl name indent = Inr (partialElement name indent (partial tmpl))"


text \<open>
  \<^verbatim>\<open>parse\<close> and \<^verbatim>\<open>parseSection\<close>.  Each round of their loops takes one unit of fuel, and
  \<open>None\<close> is the loop that has not returned when the fuel is used up; every round moves
  the cursor forward, so the fuel that \<^verbatim>\<open>ParseStringPartials\<close> gives, one more than the
  length of the input, is enough (\<open>ParseStringPartials_total\<close> below).  \<open>parseSection\<close>
  takes the fields of the section it fills and returns the template with the finished
  section.
\<close>

fun parse :: "nat \<Rightarrow> Template \<Rightarrow> (error + Template) option"
and parseSection :: "nat \<Rightarrow> Template \<Rightarrow> string \<Rightarrow> bool \<Rightarrow> nat \<Rightarrow> element list
      \<Rightarrow> (error + Template \<times> element) option" where
  "parse 0 tmpl = None"
| "parse (Suc n) tmpl =
     (case readText tmpl of
        Inl err \<Rightarrow> Some (Inl err)
      | Inr (TextReadingResult txt padding mayStandalone, eof, tmpl1) \<Rightarrow>
          if eof then Some (Inr (tmpl1\<lparr>elems := elems tmpl1 @ [textElement txt]\<rparr>))
          else
            let tmpl2 = tmpl1\<lparr>elems := elems tmpl1 @ [textElement txt]\<rparr> in
            (case readTag tmpl2 mayStandalone of
               Inl err \<Rightarrow> Some (Inl err)
             | Inr (TagReadingResult tag standalone, tmpl3) \<Rightarrow>
                 let tmpl4 = (if \<not> standalone
                              then tmpl3\<lparr>elems := elems tmpl3 @ [textElement padding]\<rparr>
                              else tmpl3)
                 in
                 if hd tag = CHR ''!'' then parse n tmpl4
                 else if hd tag = CHR ''#'' \<or> hd tag = CHR ''^'' then
                   (let name = TrimSpace (drop 1 tag) in
                    case parseSection n tmpl4 name (hd tag = CHR ''^'') (curline tmpl4) [] of
                      None \<Rightarrow> None
                    | Some (Inl err) \<Rightarrow> Some (Inl err)
                    | Some (Inr (tmpl5, se)) \<Rightarrow> parse n (tmpl5\<lparr>elems := elems tmpl5 @ [se]\<rparr>))
                 else if hd tag = CHR ''/'' then
                   Some (Inl (parseError (curline tmpl4) ''unmatched close tag''))
                 else if hd tag = CHR ''>'' then
                   (let name = TrimSpace (drop 1 tag) in
                    case parsePartial tmpl4 name padding of
                      Inl err \<Rightarrow> Some (Inl err)
                    | Inr pe \<Rightarrow> parse n (tmpl4\<lparr>elems := elems tmpl4 @ [pe]\<rparr>))
                 else if hd tag = CHR ''='' then
                   (if last tag \<noteq> CHR ''='' then
                      Some (Inl (parseError (curline tmpl4) ''Invalid meta tag''))
                    else if length tag < 2 then
                      Some (Inl (panic ''slice bounds out of range [1:0]''))
                    else
                      let newtags = SplitN2 (TrimSpace (slice tag 1 (length tag - 1))) (CHR '' '') in
                      if length newtags = 2
                      then parse n (tmpl4\<lparr>otag := newtags ! 0, ctag := newtags ! 1\<rparr>)
                      else parse n tmpl4)
                 else if hd tag = CHR ''{'' then
                   (if last tag = CHR ''}'' then
                      (let name = TrimSpace (slice tag 1 (length tag - 1)) in
                       parse n (tmpl4\<lparr>elems := elems tmpl4 @ [varElement name True]\<rparr>))
                    else parse n tmpl4)
                 else if hd tag = CHR ''&'' then
                   (let name = TrimSpace (drop 1 tag) in
                    parse n (tmpl4\<lparr>elems := elems tmpl4 @ [varElement name True]\<rparr>))
                 else parse n (tmpl4\<lparr>elems := elems tmpl4 @ [varElement tag False]\<rparr>)))"
| "parseSection 0 tmpl sname inverted startline selems = None"
| "parseSection (Suc n) tmpl sname inverted startline selems =
     (case readText tmpl of
        Inl err \<Rightarrow> Some (Inl err)
      | Inr (TextReadingResult txt padding mayStandalone, eof, tmpl1) \<Rightarrow>
          if eof then
            Some (Inl (parseError startline (''Section '' @ sname @ '' has no closing tag'')))
          else
            let selems1 = selems @ [textElement txt] in
            (case readTag tmpl1 mayStandalone of
               Inl err \<Rightarrow> Some (Inl err)
             | Inr (TagReadingResult tag standalone, tmpl2) \<Rightarrow>
                 let selems2 = (if \<not> standalone then selems1 @ [textElement padding] else selems1)
                 in
                 if hd tag = CHR ''!'' then parseSection n tmpl2 sname inverted startline selems2
                 else if hd tag = CHR ''#'' \<or> hd tag = CHR ''^'' then
                   (let name = TrimSpace (drop 1 tag) in
                    case parseSection n tmpl2 name (hd tag = CHR ''^'') (curline tmpl2) [] of
                      None \<Rightarrow> None
                    | Some (Inl err) \<Rightarrow> Some (Inl err)
                    | Some (Inr (tmpl3, se)) \<Rightarrow>
                        parseSection n tmpl3 sname inverted startline (selems2 @ [se]))
                 else if hd tag = CHR ''/'' then
                   (let name = TrimSpace (drop 1 tag) in
                    if name \<noteq> sname then
                      Some (Inl (parseError (curline tmpl2) (''interleaved closing tag: '' @ name)))
                    else Some (Inr (tmpl2, sectionElement sname inverted startline selems2)))
                 else if hd tag = CHR ''>'' then
                   (let name = TrimSpace (drop 1 tag) in
                    case parsePartial tmpl2 name padding of
                      Inl err \<Rightarrow> Some (Inl err)
                    | Inr pe \<Rightarrow> parseSection n tmpl2 sname inverted startline (selems2 @ [pe]))
                 else if hd tag = CHR ''='' then
                   (if last tag \<noteq> CHR ''='' then
                      Some (Inl (parseError (curline tmpl2) ''Invalid meta tag''))
                    else if length tag < 2 then
                      Some (Inl (panic ''slice bounds out of range [1:0]''))
                    else
                      let newtags = SplitN2 (TrimSpace (slice tag 1 (length tag - 1))) (CHR '' '') in
                      if length newtags = 2
                      then parseSection n (tmpl2\<lparr>otag := newtags ! 0, ctag := newtags ! 1\<rparr>)
                             sname inverted startline selems2
                      else parseSection n tmpl2 sname inverted startline selems2)
                 else if hd tag = CHR ''{'' then
                   (if last tag = CHR ''}'' then
                      (let name = TrimSpace (slice tag 1 (length tag - 1)) in
                       parseSection n tmpl2 sname inverted startline
                         (selems2 @ [varElement name True]))
                    else parseSection n tmpl2 sname inverted startline selems2)
                 else if hd tag = CHR ''&'' then
                   (let name = TrimSpace (drop 1 tag) in
                    parseSection n tmpl2 sname inverted startline (selems2 @ [varElement name True]))
                 else parseSection n tmpl2 sname inverted startline
                        (selems2 @ [varElement tag False])))"

text \<open>
  \<^verbatim>\<open>ParseStringPartials\<close>; \<open>newTemplate\<close> is the template it starts from,
  \<^verbatim>\<open>Template{data, "{{", "}}", 0, 1, []interface{}{}, partials, false}\<close>.
\<close>

definition newTemplate :: "string \<Rightarrow> PartialProvider \<Rightarrow> Template" where
  "newTemplate d partials =
     \<lparr>data = d, otag = ''{{'', ctag = ''}}'', p = 0, curline = 1, elems = [],
      partial = partials, errmiss = False\<rparr>"

definition ParseStringPartials :: "string \<Rightarrow> PartialProvider option \<Rightarrow> (error + Template) option" where
  "ParseStringPartials d partials =
     (let partials' = (case partials of None \<Rightarrow> EmptyProvider | Some pr \<Rightarrow> pr)
      in parse (Suc (length d)) (newTemplate d partials'))"

definition ParseString :: "string \<Rightarrow> (error + Template) option" where
  "ParseString d = ParseStringPartials d None"


section \<open>Emptiness\<close>

text \<open>
  \<^verbatim>\<open>indirect\<close>, \<^verbatim>\<open>Value.IsZero\<close> and \<^verbatim>\<open>isEmpty\<close>.  \<open>InterfaceIsNil v\<close> is
  \<^verbatim>\<open>v.Interface() == nil\<close>, which holds for the nil interface only; \<open>sliceElems\<close> are
  the elements of a slice, none for the nil slice.
\<close>

fun indirect :: "val option \<Rightarrow> val option" where
  "indirect None = None"
| "indirect (Some (Val ms (VPtr None))) = None"
| "indirect (Some (Val ms (VPtr (Some (a, v))))) = indirect (Some v)"
| "indirect (Some (Val ms (VInterface e))) = indirect e"
| "indirect (Some v) = Some v"

fun IsZero :: "val \<Rightarrow> bool" where
  "IsZero (Val ms (VBool b)) = (\<not> b)"
| "IsZero (Val ms (VInt i)) = (i = 0)"
| "IsZero (Val ms (VString s)) = (length s = 0)"
| "IsZero (Val ms (VSlice xs)) = (xs = None)"
| "IsZero (Val ms (VArray xs)) = list_all IsZero xs"
| "IsZero (Val ms (VMap m)) = (m = None)"
| "IsZero (Val ms (VStruct fs)) = list_all (\<lambda>f. IsZero (snd f)) fs"
| "IsZero (Val ms (VPtr q)) = (q = None)"
| "IsZero (Val ms (VInterface e)) = (e = None)"

fun sliceElems :: "val list option \<Rightarrow> val list" where
  "sliceElems None = []"
| "sliceElems (Some xs) = xs"

fun InterfaceIsNil :: "val option \<Rightarrow> bool" where
  "InterfaceIsNil (Some (Val ms (VInterface None))) = True"
| "InterfaceIsNil v = False"

definition isEmpty :: "val option \<Rightarrow> bool" where
  "isEmpty v =
     (if v = None \<or> InterfaceIsNil v then True
      else
        (case indirect v of
           None \<Rightarrow> True
         | Some (Val ms sh) \<Rightarrow>
             (case sh of
                VArray xs \<Rightarrow> length xs = 0
              | VSlice xs \<Rightarrow> length (sliceElems xs) = 0
              | VString s \<Rightarrow> length (TrimSpace s) = 0
              | _ \<Rightarrow> IsZero (Val ms sh))))"

section \<open>Formatting\<close>

text \<open>
  \<^verbatim>\<open>fmt.Sprint(val.Interface())\<close>, the formatting with the verb \<^verbatim>\<open>%v\<close>: decimal
  integers, \<open>true\<close> and \<open>false\<close>, strings as they are, slices and arrays in brackets,
  maps as \<open>map[k:v ...]\<close> with the keys in order, structs in braces, \<^verbatim>\<open><nil>\<close> for nil; a
  pointer to an array, slice, struct or map is printed as \<open>&\<close> and the value at the top
  level and as its address elsewhere.  Before the kind is looked at, at every depth,
  \<^verbatim>\<open>handleMethods\<close> asks whether the value is an \<^verbatim>\<open>error\<close> or a \<^verbatim>\<open>fmt.Stringer\<close>, in this
  order: a value whose method set has \<^verbatim>\<open>Error\<close>, or else \<^verbatim>\<open>String\<close>, without argument and
  with the one result a string, is printed as that result.  For a value of interface
  kind the question is asked of the value inside.  A type that implements
  \<^verbatim>\<open>fmt.Formatter\<close> prints what its \<^verbatim>\<open>Format\<close> method writes, which the method list of the
  model does not hold; such types are outside the model.
  \<^verbatim>\<open>template.HTMLEscape\<close> replaces the five characters of HTML and the zero byte.
\<close>

function digitsOf :: "nat \<Rightarrow> nat \<Rightarrow> string" where
  "digitsOf base n =
     (if base < 2 \<or> n < base then [''0123456789abcdef'' ! n]
      else digitsOf base (n div base) @ [''0123456789abcdef'' ! (n mod base)])"
  by pat_completeness auto
termination
  by (relation "measure (\<lambda>(base, n). n)") auto

declare digitsOf.simps [simp del]

definition Itoa :: "int \<Rightarrow> string" where
  "Itoa i = (if i < 0 then CHR ''-'' # digitsOf 10 (nat (- i)) else digitsOf 10 (nat i))"

fun joinWith :: "string \<Rightarrow> string list \<Rightarrow> string" where
  "joinWith sep [] = []"
| "joinWith sep [x] = x"
| "joinWith sep (x # y # ys) = x @ sep @ joinWith sep (y # ys)"

fun stringResult :: "val list option \<Rightarrow> string option" where
  "stringResult (Some [Val [] (VString s)]) = Some s"
| "stringResult r = None"

definition handleMethods :: "val \<Rightarrow> string option" where
  "handleMethods v =
     (case stringResult (findMethod (methods v) ''Error'') of
        Some s \<Rightarrow> Some s
      | None \<Rightarrow> stringResult (findMethod (methods v) ''String''))"

fun printValue :: "nat \<Rightarrow> val \<Rightarrow> string" where
  "printValue depth (Val ms sh) =
     (case (case sh of VInterface e \<Rightarrow> None | _ \<Rightarrow> handleMethods (Val ms sh)) of
        Some s \<Rightarrow> s
      | None \<Rightarrow>
          (case sh of
             VBool b \<Rightarrow> (if b then ''true'' else ''false'')
           | VInt i \<Rightarrow> Itoa i
           | VString s \<Rightarrow> s
           | VSlice None \<Rightarrow> ''[]''
           | VSlice (Some xs) \<Rightarrow> ''['' @ joinWith '' '' (map (printValue (depth + 1)) xs) @ '']''
           | VArray xs \<Rightarrow> ''['' @ joinWith '' '' (map (printValue (depth + 1)) xs) @ '']''
           | VMap None \<Rightarrow> ''map[]''
           | VMap (Some kvs) \<Rightarrow>
               ''map['' @ joinWith '' '' (map (\<lambda>kv. fst kv @ '':'' @ printValue (depth + 1) (snd kv))
                                             (sort_key fst kvs)) @ '']''
           | VStruct fs \<Rightarrow>
               ''{'' @ joinWith '' '' (map (\<lambda>f. printValue (depth + 1) (snd f)) fs) @ ''}''
           | VPtr None \<Rightarrow> ''<nil>''
           | VPtr (Some (a, v)) \<Rightarrow>
               (if depth = 0 \<and> (case shape v of VArray xs \<Rightarrow> True | VSlice xs \<Rightarrow> True
                                   | VStruct fs \<Rightarrow> True | VMap m \<Rightarrow> True | _ \<Rightarrow> False)
                then ''&'' @ printValue (depth + 1) v
                else ''0x'' @ digitsOf 16 a)
           | VInterface None \<Rightarrow> ''<nil>''
           | VInterface (Some v) \<Rightarrow> printValue (depth + 1) v))"

fun Sprint :: "val \<Rightarrow> string" where
  "Sprint (Val ms (VInterface None)) = ''<nil>''"
| "Sprint (Val ms (VInterface (Some v))) = printValue 0 v"
| "Sprint v = printValue 0 v"

definition escapeByte :: "char \<Rightarrow> string" where
  "escapeByte c =
     (if c = CHR 0x00 then [CHR 0xEF, CHR 0xBF, CHR 0xBD]
      else if c = CHR 0x22 then ''&#34;''
      else if c = CHR 0x27 then ''&#39;''
      else if c = CHR ''&'' then ''&amp;''
      else if c = CHR ''<'' then ''&lt;''
      else if c = CHR ''>'' then ''&gt;''
      else [c])"

definition HTMLEscape :: "string \<Rightarrow> string" where
  "HTMLEscape b = concat (map escapeByte b)"


section \<open>Partial providers\<close>

text \<open>
  The state of the provider objects of the caller: what \<^verbatim>\<open>Get\<close> of the object at an
  address returns for a name.  \<^verbatim>\<open>emptyProvider.Get\<close> returns the empty string for every
  name; \<open>StaticProvider_Get\<close> is \<^verbatim>\<open>StaticProvider.Get\<close> for the map \<open>Partials\<close>.
\<close>

type_synonym providers = "nat \<Rightarrow> string \<Rightarrow> error + string"

fun Get :: "providers \<Rightarrow> PartialProvider \<Rightarrow> string \<Rightarrow> error + string" where
  "Get h EmptyProvider name = Inr []"
| "Get h (Provider a) name = h a name"

definition StaticProvider_Get :: "(string \<times> string) list option \<Rightarrow> string \<Rightarrow> error + string" where
  "StaticProvider_Get Partials name =
     (case Partials of
        None \<Rightarrow> Inl (ErrPartialNotFound name)
      | Some m \<Rightarrow>
          (case map_of m name of
             Some d \<Rightarrow> Inr d
           | None \<Rightarrow> Inl (ErrPartialNotFound name)))"

text \<open>
  \<^verbatim>\<open>nonEmptyLine.ReplaceAllString(data, indent+"$1")\<close> with the expression
  \<^verbatim>\<open>(?m:^(.+)$)\<close>: the indentation is put in front of every maximal run of bytes other
  than the line feed.  The indentation of an element is the padding of \<^verbatim>\<open>readText\<close>,
  spaces and tabs, so no \<open>$\<close> of it is expanded.  \<open>indentLines indent lineStart\<close> is at
  the start of a line when \<open>lineStart\<close> holds.
\<close>

fun indentLines :: "string \<Rightarrow> bool \<Rightarrow> string \<Rightarrow> string" where
  "indentLines indent lineStart [] = []"
| "indentLines indent lineStart (c # cs) =
     (if c = CHR 0x0A then c # indentLines indent True cs
      else (if lineStart then indent @ [c] else [c]) @ indentLines indent False cs)"

definition getPartials :: "providers \<Rightarrow> PartialProvider \<Rightarrow> string \<Rightarrow> string
    \<Rightarrow> (error + Template) option" where
  "getPartials h partials name indent =
     (case Get h partials name of
        Inl err \<Rightarrow> Some (Inl err)
      | Inr d \<Rightarrow> ParseStringPartials (indentLines indent True d) (Some partials))"

section \<open>Rendering\<close>

text \<open>
  \<^verbatim>\<open>renderSection\<close>, \<^verbatim>\<open>renderElement\<close> and \<^verbatim>\<open>renderTemplate\<close>.  The output is written to a
  \<^verbatim>\<open>bytes.Buffer\<close>, whose writes do not fail: a render function takes the buffer and
  returns it with the error, if any.  \<open>sectionContexts\<close> is the list \<^verbatim>\<open>contexts\<close> that
  \<^verbatim>\<open>renderSection\<close> builds, empty where it returns early; \<open>renderContexts\<close> is its loop
  over that list and \<open>renderElements\<close> the loop over the elements, which is also the loop
  of \<^verbatim>\<open>renderTemplate\<close>.  A partial can include itself, and the recursion then never
  ends: each expansion of a partial takes one unit of fuel, and \<open>None\<close> is the render
  that has not returned when the fuel is used up.  The context arguments of \<^verbatim>\<open>Render\<close>
  are given as values, \<open>None\<close> for \<^verbatim>\<open>nil\<close>, so \<^verbatim>\<open>reflect.ValueOf\<close> is the identity.
\<close>

definition sectionContexts :: "bool \<Rightarrow> val option \<Rightarrow> val option \<Rightarrow> val option list" where
  "sectionContexts inverted v context =
     (if (isEmpty v \<and> \<not> inverted) \<or> (\<not> isEmpty v \<and> inverted) then []
      else if \<not> inverted then
        (case indirect v of
           Some (Val ms (VSlice xs)) \<Rightarrow> map Some (sliceElems xs)
         | Some (Val ms (VArray xs)) \<Rightarrow> map Some xs
         | Some (Val ms (VMap m)) \<Rightarrow> [v]
         | Some (Val ms (VStruct fs)) \<Rightarrow> [v]
         | _ \<Rightarrow> [context])
      else [context])"

function renderSection :: "nat \<Rightarrow> providers \<Rightarrow> Template \<Rightarrow> string \<Rightarrow> bool \<Rightarrow> nat \<Rightarrow> element list
      \<Rightarrow> val option list \<Rightarrow> string \<Rightarrow> (string \<times> error option) option"
and renderContexts :: "nat \<Rightarrow> providers \<Rightarrow> Template \<Rightarrow> element list \<Rightarrow> val option list
      \<Rightarrow> val option list \<Rightarrow> string \<Rightarrow> (string \<times> error option) option"
and renderElement :: "nat \<Rightarrow> providers \<Rightarrow> Template \<Rightarrow> element \<Rightarrow> val option list \<Rightarrow> string
      \<Rightarrow> (string \<times> error option) option"
and renderElements :: "nat \<Rightarrow> providers \<Rightarrow> Template \<Rightarrow> element list \<Rightarrow> val option list \<Rightarrow> string
      \<Rightarrow> (string \<times> error option) option" where
  "renderSection fuel h tmpl sname inverted startline body contextChain buf =
     (case lookup contextChain sname False of
        Inl err \<Rightarrow> Some (buf, Some err)
      | Inr v \<Rightarrow>
          if contextChain = [] then Some (buf, Some (panic ''index out of range [-1]''))
          else renderContexts fuel h tmpl body
                 (sectionContexts inverted v (last contextChain)) contextChain buf)"
| "renderContexts fuel h tmpl body [] contextChain buf = Some (buf, None)"
| "renderContexts fuel h tmpl body (ctx # ctxs) contextChain buf =
     (case renderElements fuel h tmpl body (ctx # contextChain) buf of
        None \<Rightarrow> None
      | Some (buf', Some err) \<Rightarrow> Some (buf', Some err)
      | Some (buf', None) \<Rightarrow> renderContexts fuel h tmpl body ctxs contextChain buf')"
| "renderElement fuel h tmpl (textElement txt) contextChain buf = Some (buf @ txt, None)"
| "renderElement fuel h tmpl (varElement name raw) contextChain buf =
     (case lookup contextChain name (errmiss tmpl) of
        Inl err \<Rightarrow> Some (buf, Some err)
      | Inr None \<Rightarrow> Some (buf, None)
      | Inr (Some v) \<Rightarrow>
          if raw then Some (buf @ Sprint v, None)
          else Some (buf @ HTMLEscape (Sprint v), None))"
| "renderElement fuel h tmpl (sectionElement name inverted startline body) contextChain buf =
     renderSection fuel h tmpl name inverted startline body contextChain buf"
| "renderElement 0 h tmpl (partialElement name indent prov) contextChain buf = None"
| "renderElement (Suc fuel) h tmpl (partialElement name indent prov) contextChain buf =
     (case getPartials h prov name indent of
        None \<Rightarrow> None
      | Some (Inl err) \<Rightarrow> Some (buf, Some err)
      | Some (Inr sub) \<Rightarrow> renderElements fuel h sub (elems sub) contextChain buf)"
| "renderElements fuel h tmpl [] contextChain buf = Some (buf, None)"
| "renderElements fuel h tmpl (el # els) contextChain buf =
     (case renderElement fuel h tmpl el contextChain buf of
        None \<Rightarrow> None
      | Some (buf', Some err) \<Rightarrow> Some (buf', Some err)
      | Some (buf', None) \<Rightarrow> renderElements fuel h tmpl els contextChain buf')"

  by pat_completeness auto
termination
  by (relation "inv_image (less_than <*lex*> less_than <*lex*> less_than <*lex*> less_than)
       (case_sum
          (case_sum
             (\<lambda>(fuel, h, tmpl, sname, inverted, startline, body, contextChain, buf).
                (fuel, size_list size body, 2::nat, 0::nat))
             (\<lambda>(fuel, h, tmpl, body, ctxs, contextChain, buf).
                (fuel, size_list size body, 1, length ctxs)))
          (case_sum
             (\<lambda>(fuel, h, tmpl, el, contextChain, buf). (fuel, size el, 0, 0))
             (\<lambda>(fuel, h, tmpl, els, contextChain, buf). (fuel, size_list size els, 0, 0))))")
     auto

definition renderTemplate :: "nat \<Rightarrow> providers \<Rightarrow> Template \<Rightarrow> val option list \<Rightarrow> string
      \<Rightarrow> (string \<times> error option) option" where
  "renderTemplate fuel h tmpl contextChain buf =
     renderElements fuel h tmpl (elems tmpl) contextChain buf"

definition FRender :: "nat \<Rightarrow> providers \<Rightarrow> Template \<Rightarrow> string \<Rightarrow> val option list
      \<Rightarrow> (string \<times> error option) option" where
  "FRender fuel h tmpl out context = renderTemplate fuel h tmpl context out"

definition Render :: "nat \<Rightarrow> providers \<Rightarrow> Template \<Rightarrow> val option list
      \<Rightarrow> (string \<times> error option) option" where
  "Render fuel h tmpl context = FRender fuel h tmpl [] context"

definition FRenderInLayout :: "nat \<Rightarrow> providers \<Rightarrow> Template \<Rightarrow> string \<Rightarrow> Template \<Rightarrow> val option list
      \<Rightarrow> (string \<times> error option) option" where
  "FRenderInLayout fuel h tmpl out layout context =
     (case Render fuel h tmpl context of
        None \<Rightarrow> None
      | Some (content, Some err) \<Rightarrow> Some (out, Some err)
      | Some (content, None) \<Rightarrow>
          FRender fuel h layout out
            (Some (Val [] (VMap (Some [(''content'', Val [] (VString content))]))) # context))"

definition RenderInLayout :: "nat \<Rightarrow> providers \<Rightarrow> Template \<Rightarrow> Template \<Rightarrow> val option list
      \<Rightarrow> (string \<times> error option) option" where
  "RenderInLayout fuel h tmpl layout context =
     (case FRenderInLayout fuel h tmpl [] layout context of
        None \<Rightarrow> None
      | Some (buf, Some err) \<Rightarrow> Some ([], Some err)
      | Some (buf, None) \<Rightarrow> Some (buf, None))"

definition SetErrorOnMissing :: "Template \<Rightarrow> Template" where
  "SetErrorOnMissing tmpl = tmpl\<lparr>errmiss := True\<rparr>"



section \<open>Notions used in the properties\<close>

text \<open>
  The cursor has moved forward in the same input and nothing else of the template has
  changed (\<open>advanced\<close>); the input, the provider and the error flag are the same and
  the cursor has not moved back (\<open>follows\<close>).
\<close>

definition advanced :: "Template \<Rightarrow> Template \<Rightarrow> bool" where
  "advanced t t' =
     (data t' = data t \<and> otag t' = otag t \<and> ctag t' = ctag t \<and> elems t' = elems t \<and>
      partial t' = partial t \<and> errmiss t' = errmiss t \<and>
      p t < p t' \<and> p t' \<le> length (data t))"

definition follows :: "Template \<Rightarrow> Template \<Rightarrow> bool" where
  "follows t t' =
     (data t' = data t \<and> partial t' = partial t \<and> errmiss t' = errmiss t \<and> p t \<le> p t')"

text \<open>
  What one round of the parser's loops appends for the text in front of a tag: the
  padding follows the text unless the tag is standalone.
\<close>

fun withPadding :: "bool \<Rightarrow> string \<Rightarrow> element list \<Rightarrow> element list" where
  "withPadding standalone padding es = (if \<not> standalone then es @ [textElement padding] else es)"

text \<open>
  The new delimiters of a tag \<^verbatim>\<open>=...=\<close> as the code computes them: the inner text is
  the tag without its first and last byte, trimmed; it is cut at its first space
  (\<^verbatim>\<open>strings.SplitN(tag, " ", 2)\<close>), and without a space there are no new delimiters.
\<close>

definition newDelimiters :: "string \<Rightarrow> (string \<times> string) option" where
  "newDelimiters tag =
     (let inner = TrimSpace (slice tag 1 (length tag - 1)) in
      if CHR '' '' \<in> set inner
      then Some (takeWhile (\<lambda>c. c \<noteq> CHR '' '') inner, tl (dropWhile (\<lambda>c. c \<noteq> CHR '' '') inner))
      else None)"

fun withDelimiters :: "(string \<times> string) option \<Rightarrow> Template \<Rightarrow> Template" where
  "withDelimiters None tmpl = tmpl"
| "withDelimiters (Some (ot, ct)) tmpl = tmpl\<lparr>otag := ot, ctag := ct\<rparr>"

text \<open>
  The cut of the claim's words: at the first run of white space.
\<close>

definition splitAtWhitespaceRun :: "string \<Rightarrow> string \<times> string" where
  "splitAtWhitespaceRun inner =
     (takeWhile (\<lambda>c. \<not> asciiSpace c) inner,
      dropWhile asciiSpace (dropWhile (\<lambda>c. \<not> asciiSpace c) inner))"

text \<open>
  The emptiness of the claim as it is worded: after unwrapping, the value is absent, or a
  list or array of length 0, or a string that is empty once trimmed, or equal to the zero
  value of its type.
\<close>

definition emptyAsWorded :: "val option \<Rightarrow> bool" where
  "emptyAsWorded v =
     (case indirect v of
        None \<Rightarrow> True
      | Some (Val ms sh) \<Rightarrow>
          (case sh of VArray xs \<Rightarrow> length xs = 0 | VSlice xs \<Rightarrow> length (sliceElems xs) = 0
             | _ \<Rightarrow> False) \<or>
          (case sh of VString s \<Rightarrow> length (TrimSpace s) = 0 | _ \<Rightarrow> False) \<or>
          IsZero (Val ms sh))"

section \<open>Lemmas about the model\<close>

subsection \<open>Value resolution with and without the missing-variable error\<close>

lemma lookupValue_result:
  "lookupValue v name = Return r \<Longrightarrow> (\<exists>w. r = Inr (Some w)) \<or> (\<exists>msg. r = Inl (panic msg))"
  by (induction v name rule: lookupValue.induct)
     (auto split: option.splits list.splits shape.splits if_splits simp: FieldByName_def)

lemma scanChain_flag:
  "scanChain c name True =
     (case scanChain c name False of Inr None \<Rightarrow> Inl (missingVariable name) | r \<Rightarrow> r)"
proof (induction c)
  case Nil
  then show ?case by simp
next
  case (Cons x xs)
  show ?case
  proof (cases "lookupValue x name")
    case (Return r)
    then show ?thesis using lookupValue_result [OF Return] by auto
  next
    case ContinueOuter
    then show ?thesis using Cons by simp
  qed
qed

lemma scanChain_False_not_missing: "scanChain c name False \<noteq> Inl (missingVariable m)"
proof (induction c)
  case Nil
  then show ?case by simp
next
  case (Cons x xs)
  show ?case
  proof (cases "lookupValue x name")
    case (Return r)
    then show ?thesis using lookupValue_result [OF Return] by auto
  next
    case ContinueOuter
    then show ?thesis using Cons by simp
  qed
qed

lemma lookup_invalid_context: "lookup [None] name False = Inr None"
proof (induction "length name" arbitrary: name rule: less_induct)
  case less
  show ?case
  proof (cases "name \<noteq> ''.'' \<and> Contains name ''.''")
    case True
    then have mem: "CHR ''.'' \<in> set name" by (simp add: Contains_single)
    have h: "lookup [None] (SplitN2 name (CHR ''.'') ! 0) False = Inr None"
      using less [OF SplitN2_head_length [OF mem]] by simp
    have "length (SplitN2 name (CHR ''.'') ! 1) < length name"
      using SplitN2_tail_length [OF mem] by simp
    then have t: "lookup [None] (SplitN2 name (CHR ''.'') ! 1) False = Inr None"
      by (rule less)
    show ?thesis
      using True h t by (subst lookup.simps) (simp add: Let_def)
  next
    case False
    then show ?thesis by (subst lookup.simps) auto
  qed
qed

lemma lookup_flag:
  "(\<forall>m. lookup c name False \<noteq> Inl (missingVariable m)) \<and>
   (lookup c name False = Inr None \<longrightarrow> (\<exists>m. lookup c name True = Inl (missingVariable m))) \<and>
   (lookup c name False \<noteq> Inr None \<longrightarrow> lookup c name True = lookup c name False)"
proof (induction "length name" arbitrary: c name rule: less_induct)
  case less
  show ?case
  proof (cases "name \<noteq> ''.'' \<and> Contains name ''.''")
    case True
    then have mem: "CHR ''.'' \<in> set name" by (simp add: Contains_single)
    let ?h = "SplitN2 name (CHR ''.'') ! 0" and ?t = "SplitN2 name (CHR ''.'') ! 1"
    note ihh = less [OF SplitN2_head_length [OF mem], of c]
    have tlen: "length ?t < length name"
      using SplitN2_tail_length [OF mem] by simp
    have eqF: "lookup c name False =
        (case lookup c ?h False of Inl err \<Rightarrow> Inl err | Inr v \<Rightarrow> lookup [v] ?t False)"
      using True by (subst lookup.simps) (simp add: Let_def)
    have eqT: "lookup c name True =
        (case lookup c ?h True of Inl err \<Rightarrow> Inl err | Inr v \<Rightarrow> lookup [v] ?t True)"
      using True by (subst lookup.simps) (simp add: Let_def)
    show ?thesis
    proof (cases "lookup c ?h False")
      case (Inl err)
      then show ?thesis using ihh eqF eqT by auto
    next
      case (Inr v)
      show ?thesis
      proof (cases v)
        case None
        then obtain m where "lookup c ?h True = Inl (missingVariable m)"
          using ihh Inr by auto
        then show ?thesis
          using eqF eqT Inr None lookup_invalid_context [of ?t] by auto
      next
        case (Some w)
        then have "lookup c ?h True = Inr (Some w)" using ihh Inr by auto
        then show ?thesis
          using eqF eqT Inr Some less [OF tlen, of "[Some w]"] by auto
      qed
    qed
  next
    case False
    then have "lookup c name False = scanChain c name False"
      and "lookup c name True = scanChain c name True"
      by (subst lookup.simps, auto)+
    then show ?thesis
      using scanChain_flag [of c name] scanChain_False_not_missing [of c name]
      by (auto split: sum.splits option.splits)
  qed
qed

subsection \<open>Progress of the lexer and the parser\<close>

lemma readStringFrom_advanced:
  "s \<noteq> [] \<Longrightarrow> p tmpl \<le> i \<Longrightarrow> readStringFrom tmpl s i nl = (txt, False, tmpl') \<Longrightarrow>
   advanced tmpl tmpl'"
proof (induction tmpl s i nl rule: readStringFrom.induct)
  case (1 tmpl s i newlines)
  from "1.prems"(3) have inb: "\<not> i + length s > length (data tmpl)"
    by (subst (asm) readStringFrom.simps) (auto split: if_splits)
  let ?nl = "if data tmpl ! i = CHR 0x0A then newlines + 1 else newlines"
  show ?case
  proof (cases "data tmpl ! i \<noteq> s ! 0")
    case True
    then have "readStringFrom tmpl s (i + 1) ?nl = (txt, False, tmpl')"
      using "1.prems"(3) inb by (subst (asm) readStringFrom.simps) (simp add: Let_def)
    then show ?thesis
      using "1.IH"(1) [OF inb refl True "1.prems"(1)] "1.prems"(2) by simp
  next
    case False
    show ?thesis
    proof (cases "list_all (\<lambda>j. s ! j = data tmpl ! (i + j)) [1..<length s]")
      case True
      then have "tmpl' = tmpl\<lparr>p := i + length s, curline := curline tmpl + ?nl\<rparr>"
        using "1.prems"(3) inb False by (subst (asm) readStringFrom.simps) (simp add: Let_def)
      moreover have "p tmpl < i + length s" using "1.prems"(1,2) by (cases s) auto
      ultimately show ?thesis using inb by (simp add: advanced_def)
    next
      case nomatch: False
      then have "readStringFrom tmpl s (i + 1) ?nl = (txt, False, tmpl')"
        using "1.prems"(3) inb False by (subst (asm) readStringFrom.simps) (simp add: Let_def)
      then show ?thesis
        using "1.IH"(2) [OF inb refl _ nomatch "1.prems"(1)] False "1.prems"(2) by simp
    qed
  qed
qed

lemma readString_advanced:
  "readString tmpl s = Inr (txt, False, tmpl') \<Longrightarrow> advanced tmpl tmpl'"
  by (auto simp: readString_def split: if_splits intro: readStringFrom_advanced)

lemma readText_advanced:
  "readText tmpl = Inr (r, False, tmpl') \<Longrightarrow> advanced tmpl tmpl'"
  by (auto simp: readText_def Let_def split: sum.splits prod.splits if_splits
           dest: readString_advanced)

lemma findEow_bounds: "i \<le> length d \<Longrightarrow> eow \<le> i \<Longrightarrow> eow \<le> findEow d i eow \<and> findEow d i eow \<le> length d"
proof (induction d i eow rule: findEow.induct)
  case (1 d i eow)
  show ?case
  proof (cases "i < length d")
    case True
    show ?thesis
    proof (cases "\<not> (d ! i = CHR '' '' \<or> d ! i = CHR 0x09)")
      case stop: True
      then show ?thesis using True "1.prems" by (subst findEow.simps, simp)+
    next
      case False
      then have "findEow d i eow = findEow d (i + 1) eow"
        using True by (subst findEow.simps) simp
      then show ?thesis using "1.IH" [OF True False] True "1.prems" by simp
    qed
  next
    case False
    then show ?thesis using "1.prems" by (subst findEow.simps, simp)+
  qed
qed

lemma advanced_trans_p:
  "advanced t t1 \<Longrightarrow> data t2 = data t1 \<Longrightarrow> otag t2 = otag t1 \<Longrightarrow> ctag t2 = ctag t1 \<Longrightarrow>
   elems t2 = elems t1 \<Longrightarrow> partial t2 = partial t1 \<Longrightarrow> errmiss t2 = errmiss t1 \<Longrightarrow>
   p t1 \<le> p t2 \<Longrightarrow> p t2 \<le> length (data t1) \<Longrightarrow> advanced t t2"
  by (simp add: advanced_def)

lemma readTag_advanced:
  "readTag tmpl may = Inr (r, tmpl') \<Longrightarrow> advanced tmpl tmpl'"
proof -
  assume a: "readTag tmpl may = Inr (r, tmpl')"
  let ?rs = "if p tmpl < length (data tmpl) \<and> data tmpl ! p tmpl = CHR ''{''
             then readString tmpl (CHR ''}'' # ctag tmpl) else readString tmpl (ctag tmpl)"
  from a obtain tx tmpl1 where rs: "?rs = Inr (tx, False, tmpl1)"
    by (auto simp: readTag_def Let_def split: sum.splits prod.splits if_splits)
  then have adv: "advanced tmpl tmpl1"
    by (auto split: if_splits dest: readString_advanced)
  then have le: "p tmpl1 \<le> length (data tmpl1)" by (simp add: advanced_def)
  note fb = findEow_bounds [OF le order_refl]
  from a rs have "tmpl' = tmpl1 \<or>
      tmpl' = tmpl1\<lparr>p := findEow (data tmpl1) (p tmpl1) (p tmpl1)\<rparr> \<or>
      (findEow (data tmpl1) (p tmpl1) (p tmpl1) < length (data tmpl1) \<and>
       tmpl' = tmpl1\<lparr>p := findEow (data tmpl1) (p tmpl1) (p tmpl1) + 1, curline := curline tmpl1 + 1\<rparr>) \<or>
      (findEow (data tmpl1) (p tmpl1) (p tmpl1) + 1 < length (data tmpl1) \<and>
       tmpl' = tmpl1\<lparr>p := findEow (data tmpl1) (p tmpl1) (p tmpl1) + 2, curline := curline tmpl1 + 1\<rparr>)"
    unfolding readTag_def by (simp add: Let_def split: if_splits)
  then show ?thesis
    using adv fb by (elim disjE) (auto intro!: advanced_trans_p [OF adv])
qed

lemma readStringFrom_eof:
  "readStringFrom tmpl s i nl = (tx, True, tmpl') \<Longrightarrow> tmpl' = tmpl"
proof (induction tmpl s i nl rule: readStringFrom.induct)
  case (1 tmpl s i newlines)
  show ?case
  proof (cases "i + length s > length (data tmpl)")
    case True
    then show ?thesis using "1.prems" by (subst (asm) readStringFrom.simps) simp
  next
    case False
    then show ?thesis
      using "1.prems" "1.IH"
      by (subst (asm) readStringFrom.simps) (auto simp: Let_def split: if_splits)
  qed
qed

lemma readText_eof: "readText tmpl = Inr (r, True, tmpl') \<Longrightarrow> tmpl' = tmpl"
  by (auto simp: readText_def readString_def Let_def split: sum.splits prod.splits if_splits
           dest: readStringFrom_eof)

lemma follows_refl [simp]: "follows t t"
  by (simp add: follows_def)

lemma follows_trans: "follows a b \<Longrightarrow> follows b c \<Longrightarrow> follows a c"
  by (auto simp: follows_def)

lemma follows_update [simp]:
  "follows a (b\<lparr>elems := es\<rparr>) = follows a b"
  "follows a (b\<lparr>otag := ot, ctag := ct\<rparr>) = follows a b"
  "follows (a\<lparr>elems := es\<rparr>) b = follows a b"
  "follows (a\<lparr>otag := ot, ctag := ct\<rparr>) b = follows a b"
  by (auto simp: follows_def)

text \<open>One round of either loop: the state after the text and the tag.\<close>

lemma round_follows:
  "readText tmpl = Inr (r, False, tmpl1) \<Longrightarrow> readTag (tmpl1\<lparr>elems := es\<rparr>) may = Inr (tr, tmpl2) \<Longrightarrow>
   follows tmpl tmpl2 \<and> p tmpl < p tmpl2 \<and> p tmpl < length (data tmpl)"
proof -
  assume a: "readText tmpl = Inr (r, False, tmpl1)"
    and b: "readTag (tmpl1\<lparr>elems := es\<rparr>) may = Inr (tr, tmpl2)"
  from readText_advanced [OF a] readTag_advanced [OF b]
  show ?thesis by (auto simp: advanced_def follows_def)
qed

lemma round_follows':
  "readText tmpl = Inr (r, False, tmpl1) \<Longrightarrow> readTag tmpl1 may = Inr (tr, tmpl2) \<Longrightarrow>
   follows tmpl tmpl2 \<and> p tmpl < p tmpl2 \<and> p tmpl < length (data tmpl)"
proof -
  assume a: "readText tmpl = Inr (r, False, tmpl1)"
    and b: "readTag tmpl1 may = Inr (tr, tmpl2)"
  from readText_advanced [OF a] readTag_advanced [OF b]
  show ?thesis by (auto simp: advanced_def follows_def)
qed

lemma parse_follows:
  "(\<forall>tmpl t'. parse n tmpl = Some (Inr t') \<longrightarrow> follows tmpl t') \<and>
   (\<forall>tmpl sname inverted startline selems t' se.
      parseSection n tmpl sname inverted startline selems = Some (Inr (t', se)) \<longrightarrow>
      follows tmpl t' \<and> p tmpl < p t')"
proof (induction n)
  case 0
  then show ?case by simp
next
  case (Suc n)
  have ihp: "\<And>tmpl t'. parse n tmpl = Some (Inr t') \<Longrightarrow> follows tmpl t'"
    using Suc by blast
  have ihs: "\<And>tmpl sname inverted startline selems t' se.
      parseSection n tmpl sname inverted startline selems = Some (Inr (t', se)) \<Longrightarrow>
      follows tmpl t' \<and> p tmpl < p t'"
    using Suc by blast
  have A: "follows tmpl t'" if res: "parse (Suc n) tmpl = Some (Inr t')" for tmpl t'
  proof (cases "readText tmpl")
    case (Inl err)
    then show ?thesis using res by simp
  next
    case (Inr x)
    then obtain tx padding may eof tmpl1 where
      rt: "readText tmpl = Inr (TextReadingResult tx padding may, eof, tmpl1)"
      by (cases x) (metis textReadingResult.exhaust)
    show ?thesis
    proof (cases eof)
      case True
      then have "tmpl1 = tmpl" using rt by (auto dest: readText_eof)
      then show ?thesis using res rt True by auto
    next
      case False
      then have rt': "readText tmpl = Inr (TextReadingResult tx padding may, False, tmpl1)"
        using rt by simp
      let ?t2 = "tmpl1\<lparr>elems := elems tmpl1 @ [textElement tx]\<rparr>"
      show ?thesis
      proof (cases "readTag ?t2 may")
        case (Inl err)
        then show ?thesis using res rt' by simp
      next
        case (Inr y)
        then obtain tag standalone tmpl3 where
          rg: "readTag ?t2 may = Inr (TagReadingResult tag standalone, tmpl3)"
          by (cases y) (metis tagReadingResult.exhaust)
        have f3: "follows tmpl tmpl3"
          using round_follows [OF rt' rg] by simp
        show ?thesis
          using res rt' rg f3
          by (auto simp: Let_def parsePartial_def split: if_splits option.splits sum.splits prod.splits
                   dest!: ihp ihs intro: follows_trans simp: follows_def)
      qed
    qed
  qed
  have S: "follows tmpl t' \<and> p tmpl < p t'"
    if res: "parseSection (Suc n) tmpl sname inverted startline selems = Some (Inr (t', se))"
    for tmpl sname inverted startline selems t' se
  proof (cases "readText tmpl")
    case (Inl err)
    then show ?thesis using res by simp
  next
    case (Inr x)
    then obtain tx padding may eof tmpl1 where
      rt: "readText tmpl = Inr (TextReadingResult tx padding may, eof, tmpl1)"
      by (cases x) (metis textReadingResult.exhaust)
    show ?thesis
    proof (cases eof)
      case True
      then show ?thesis using res rt by simp
    next
      case False
      then have rt': "readText tmpl = Inr (TextReadingResult tx padding may, False, tmpl1)"
        using rt by simp
      show ?thesis
      proof (cases "readTag tmpl1 may")
        case (Inl err)
        then show ?thesis using res rt' by simp
      next
        case (Inr y)
        then obtain tag standalone tmpl2 where
          rg: "readTag tmpl1 may = Inr (TagReadingResult tag standalone, tmpl2)"
          by (cases y) (metis tagReadingResult.exhaust)
        have f2: "follows tmpl tmpl2 \<and> p tmpl < p tmpl2"
          using round_follows' [OF rt' rg] by simp
        show ?thesis
          using res rt' rg f2
          by (auto simp: Let_def parsePartial_def split: if_splits option.splits sum.splits prod.splits
                   dest!: ihs simp: follows_def)
      qed
    qed
  qed
  show ?case using A S by blast
qed

lemma section_continue:
  assumes "r \<noteq> None" and "\<And>t5 se. r = Some (Inr (t5, se)) \<Longrightarrow> k t5 se \<noteq> None"
  shows "(case r of None \<Rightarrow> None | Some (Inl err) \<Rightarrow> Some (Inl err)
          | Some (Inr (t5, se)) \<Rightarrow> k t5 se) \<noteq> None"
  using assms by (cases r) (auto split: sum.splits)

lemma tag_cases:
  obtains "hd tag = CHR ''!''" | "hd tag = CHR ''#''" | "hd tag = CHR ''^''" | "hd tag = CHR ''/''"
    | "hd tag = CHR ''>''" | "hd tag = CHR ''=''" | "hd tag = CHR ''{''" | "hd tag = CHR ''&''"
    | "hd tag \<noteq> CHR ''!''" "hd tag \<noteq> CHR ''#''" "hd tag \<noteq> CHR ''^''" "hd tag \<noteq> CHR ''/''"
      "hd tag \<noteq> CHR ''>''" "hd tag \<noteq> CHR ''=''" "hd tag \<noteq> CHR ''{''" "hd tag \<noteq> CHR ''&''"
  by blast

lemma parse_step_total:
  assumes rt': "readText tmpl = Inr (TextReadingResult tx padding may, False, tmpl1)"
    and rg: "readTag (tmpl1\<lparr>elems := elems tmpl1 @ [textElement tx]\<rparr>) may
               = Inr (TagReadingResult tag standalone, tmpl3)"
    and P: "\<And>X. data X = data tmpl3 \<Longrightarrow> p X = p tmpl3 \<Longrightarrow> parse n X \<noteq> None"
    and Q: "\<And>X sn inv sl es. data X = data tmpl3 \<Longrightarrow> p X = p tmpl3 \<Longrightarrow>
              parseSection n X sn inv sl es \<noteq> None"
    and sec: "\<And>t4 t5 sn inv sl sel se es.
          parseSection n t4 sn inv sl sel = Some (Inr (t5, se)) \<Longrightarrow>
          data t4 = data tmpl3 \<Longrightarrow> p t4 = p tmpl3 \<Longrightarrow> parse n (t5\<lparr>elems := es\<rparr>) \<noteq> None"
  shows "parse (Suc n) tmpl \<noteq> None"
proof (cases tag rule: tag_cases)
  case 1
  then show ?thesis using rt' rg by (simp add: Let_def P del: not_None_eq)
next
  case 2
  let ?t4 = "if standalone then tmpl3 else tmpl3\<lparr>elems := elems tmpl3 @ [textElement padding]\<rparr>"
  have d4: "data ?t4 = data tmpl3" "p ?t4 = p tmpl3" by simp_all
  have eq: "parse (Suc n) tmpl =
      (case parseSection n ?t4 (TrimSpace (drop 1 tag)) False (curline ?t4) [] of
         None \<Rightarrow> None | Some (Inl err) \<Rightarrow> Some (Inl err)
       | Some (Inr (t5, se)) \<Rightarrow> parse n (t5\<lparr>elems := elems t5 @ [se]\<rparr>))"
    using rt' rg 2 by (simp add: Let_def)
  show ?thesis unfolding eq
  proof (rule section_continue)
    show "parseSection n ?t4 (TrimSpace (drop 1 tag)) False (curline ?t4) [] \<noteq> None"
      using Q [OF d4] .
  next
    fix t5 se
    assume "parseSection n ?t4 (TrimSpace (drop 1 tag)) False (curline ?t4) [] = Some (Inr (t5, se))"
    then show "parse n (t5\<lparr>elems := elems t5 @ [se]\<rparr>) \<noteq> None"
      using sec d4 by blast
  qed
next
  case 3
  let ?t4 = "if standalone then tmpl3 else tmpl3\<lparr>elems := elems tmpl3 @ [textElement padding]\<rparr>"
  have d4: "data ?t4 = data tmpl3" "p ?t4 = p tmpl3" by simp_all
  have eq: "parse (Suc n) tmpl =
      (case parseSection n ?t4 (TrimSpace (drop 1 tag)) True (curline ?t4) [] of
         None \<Rightarrow> None | Some (Inl err) \<Rightarrow> Some (Inl err)
       | Some (Inr (t5, se)) \<Rightarrow> parse n (t5\<lparr>elems := elems t5 @ [se]\<rparr>))"
    using rt' rg 3 by (simp add: Let_def)
  show ?thesis unfolding eq
  proof (rule section_continue)
    show "parseSection n ?t4 (TrimSpace (drop 1 tag)) True (curline ?t4) [] \<noteq> None"
      using Q [OF d4] .
  next
    fix t5 se
    assume "parseSection n ?t4 (TrimSpace (drop 1 tag)) True (curline ?t4) [] = Some (Inr (t5, se))"
    then show "parse n (t5\<lparr>elems := elems t5 @ [se]\<rparr>) \<noteq> None"
      using sec d4 by blast
  qed
next
  case 4
  then show ?thesis using rt' rg by (simp add: Let_def del: not_None_eq)
next
  case 5
  then show ?thesis using rt' rg by (simp add: Let_def parsePartial_def P del: not_None_eq)
next
  case 6
  then show ?thesis using rt' rg by (simp add: Let_def P del: not_None_eq)
next
  case 7
  then show ?thesis using rt' rg by (simp add: Let_def P del: not_None_eq)
next
  case 8
  then show ?thesis using rt' rg by (simp add: Let_def P del: not_None_eq)
next
  case 9
  then show ?thesis using rt' rg by (simp add: Let_def P del: not_None_eq)
qed


lemma parseSection_step_total:
  assumes rt': "readText tmpl = Inr (TextReadingResult tx padding may, False, tmpl1)"
    and rg: "readTag tmpl1 may = Inr (TagReadingResult tag standalone, tmpl2)"
    and Q: "\<And>X sn inv sl es. data X = data tmpl2 \<Longrightarrow> p X = p tmpl2 \<Longrightarrow>
              parseSection n X sn inv sl es \<noteq> None"
    and sec: "\<And>t5 sn inv sl sel se sn' inv' sl' es.
          parseSection n tmpl2 sn inv sl sel = Some (Inr (t5, se)) \<Longrightarrow>
          parseSection n t5 sn' inv' sl' es \<noteq> None"
  shows "parseSection (Suc n) tmpl sname inverted startline selems \<noteq> None"
proof (cases tag rule: tag_cases)
  case 1
  then show ?thesis using rt' rg by (simp add: Let_def Q del: not_None_eq)
next
  case 2
  let ?es = "if standalone then selems @ [textElement tx]
             else (selems @ [textElement tx]) @ [textElement padding]"
  have eq: "parseSection (Suc n) tmpl sname inverted startline selems =
      (case parseSection n tmpl2 (TrimSpace (drop 1 tag)) False (curline tmpl2) [] of
         None \<Rightarrow> None | Some (Inl err) \<Rightarrow> Some (Inl err)
       | Some (Inr (t5, se)) \<Rightarrow> parseSection n t5 sname inverted startline (?es @ [se]))"
    using rt' rg 2 by (simp add: Let_def)
  show ?thesis unfolding eq
  proof (rule section_continue)
    show "parseSection n tmpl2 (TrimSpace (drop 1 tag)) False (curline tmpl2) [] \<noteq> None"
      using Q by simp
  next
    fix t5 se
    assume "parseSection n tmpl2 (TrimSpace (drop 1 tag)) False (curline tmpl2) [] = Some (Inr (t5, se))"
    then show "parseSection n t5 sname inverted startline (?es @ [se]) \<noteq> None"
      by (rule sec)
  qed
next
  case 3
  let ?es = "if standalone then selems @ [textElement tx]
             else (selems @ [textElement tx]) @ [textElement padding]"
  have eq: "parseSection (Suc n) tmpl sname inverted startline selems =
      (case parseSection n tmpl2 (TrimSpace (drop 1 tag)) True (curline tmpl2) [] of
         None \<Rightarrow> None | Some (Inl err) \<Rightarrow> Some (Inl err)
       | Some (Inr (t5, se)) \<Rightarrow> parseSection n t5 sname inverted startline (?es @ [se]))"
    using rt' rg 3 by (simp add: Let_def)
  show ?thesis unfolding eq
  proof (rule section_continue)
    show "parseSection n tmpl2 (TrimSpace (drop 1 tag)) True (curline tmpl2) [] \<noteq> None"
      using Q by simp
  next
    fix t5 se
    assume "parseSection n tmpl2 (TrimSpace (drop 1 tag)) True (curline tmpl2) [] = Some (Inr (t5, se))"
    then show "parseSection n t5 sname inverted startline (?es @ [se]) \<noteq> None"
      by (rule sec)
  qed
next
  case 4
  then show ?thesis using rt' rg by (simp add: Let_def del: not_None_eq)
next
  case 5
  then show ?thesis using rt' rg by (simp add: Let_def parsePartial_def Q del: not_None_eq)
next
  case 6
  then show ?thesis using rt' rg by (simp add: Let_def Q del: not_None_eq)
next
  case 7
  then show ?thesis using rt' rg by (simp add: Let_def Q del: not_None_eq)
next
  case 8
  then show ?thesis using rt' rg by (simp add: Let_def Q del: not_None_eq)
next
  case 9
  then show ?thesis using rt' rg by (simp add: Let_def Q del: not_None_eq)
qed

lemma parse_total:
  "(\<forall>tmpl. length (data tmpl) - p tmpl < n \<longrightarrow> parse n tmpl \<noteq> None) \<and>
   (\<forall>tmpl sname inverted startline selems. length (data tmpl) - p tmpl < n \<longrightarrow>
      parseSection n tmpl sname inverted startline selems \<noteq> None)"
proof (induction n)
  case 0
  then show ?case by simp
next
  case (Suc n)
  have ihp: "\<And>tmpl. length (data tmpl) - p tmpl < n \<Longrightarrow> parse n tmpl \<noteq> None"
    using Suc by blast
  have ihs: "\<And>tmpl sname inverted startline selems. length (data tmpl) - p tmpl < n \<Longrightarrow>
      parseSection n tmpl sname inverted startline selems \<noteq> None"
    using Suc by blast
  have A: "parse (Suc n) tmpl \<noteq> None" if fuel: "length (data tmpl) - p tmpl < Suc n" for tmpl
  proof (cases "readText tmpl")
    case (Inl err)
    then show ?thesis by simp
  next
    case (Inr x)
    then obtain tx padding may eof tmpl1 where
      rt: "readText tmpl = Inr (TextReadingResult tx padding may, eof, tmpl1)"
      by (cases x) (metis textReadingResult.exhaust)
    show ?thesis
    proof (cases eof)
      case True
      then show ?thesis using rt by simp
    next
      case False
      then have rt': "readText tmpl = Inr (TextReadingResult tx padding may, False, tmpl1)"
        using rt by simp
      let ?t2 = "tmpl1\<lparr>elems := elems tmpl1 @ [textElement tx]\<rparr>"
      show ?thesis
      proof (cases "readTag ?t2 may")
        case (Inl err)
        then show ?thesis using rt' by simp
      next
        case (Inr y)
        then obtain tag standalone tmpl3 where
          rg: "readTag ?t2 may = Inr (TagReadingResult tag standalone, tmpl3)"
          by (cases y) (metis tagReadingResult.exhaust)
        have f3: "data tmpl3 = data tmpl" "p tmpl < p tmpl3" "p tmpl < length (data tmpl)"
          using round_follows [OF rt' rg] by (simp_all add: follows_def)
        then have m3: "length (data tmpl3) - p tmpl3 < n" using fuel by arith
        show ?thesis
        proof (rule parse_step_total [OF rt' rg])
          fix X :: Template assume "data X = data tmpl3" "p X = p tmpl3"
          then show "parse n X \<noteq> None" using ihp [of X] m3 by simp
        next
          fix X :: Template and sn inv sl es assume "data X = data tmpl3" "p X = p tmpl3"
          then show "parseSection n X sn inv sl es \<noteq> None" using ihs [of X] m3 by simp
        next
          fix t4 t5 :: Template and sn inv sl sel se es
          assume a: "parseSection n t4 sn inv sl sel = Some (Inr (t5, se))"
            "data t4 = data tmpl3" "p t4 = p tmpl3"
          have "follows t4 t5" using parse_follows [of n] a(1) by blast
          then have "length (data (t5\<lparr>elems := es\<rparr>)) - p (t5\<lparr>elems := es\<rparr>) < n"
            using m3 a(2,3) by (auto simp: follows_def)
          then show "parse n (t5\<lparr>elems := es\<rparr>) \<noteq> None" by (rule ihp)
        qed
      qed
    qed
  qed
  have S: "parseSection (Suc n) tmpl sname inverted startline selems \<noteq> None"
    if fuel: "length (data tmpl) - p tmpl < Suc n" for tmpl sname inverted startline selems
  proof (cases "readText tmpl")
    case (Inl err)
    then show ?thesis by simp
  next
    case (Inr x)
    then obtain tx padding may eof tmpl1 where
      rt: "readText tmpl = Inr (TextReadingResult tx padding may, eof, tmpl1)"
      by (cases x) (metis textReadingResult.exhaust)
    show ?thesis
    proof (cases eof)
      case True
      then show ?thesis using rt by simp
    next
      case False
      then have rt': "readText tmpl = Inr (TextReadingResult tx padding may, False, tmpl1)"
        using rt by simp
      show ?thesis
      proof (cases "readTag tmpl1 may")
        case (Inl err)
        then show ?thesis using rt' by simp
      next
        case (Inr y)
        then obtain tag standalone tmpl2 where
          rg: "readTag tmpl1 may = Inr (TagReadingResult tag standalone, tmpl2)"
          by (cases y) (metis tagReadingResult.exhaust)
        have f2: "data tmpl2 = data tmpl" "p tmpl < p tmpl2" "p tmpl < length (data tmpl)"
          using round_follows' [OF rt' rg] by (simp_all add: follows_def)
        then have m2: "length (data tmpl2) - p tmpl2 < n" using fuel by arith
        show ?thesis
        proof (rule parseSection_step_total [OF rt' rg])
          fix X :: Template and sn inv sl es assume "data X = data tmpl2" "p X = p tmpl2"
          then show "parseSection n X sn inv sl es \<noteq> None" using ihs [of X] m2 by simp
        next
          fix t5 :: Template and sn inv sl sel se sn' inv' sl' es
          assume a: "parseSection n tmpl2 sn inv sl sel = Some (Inr (t5, se))"
          have "follows tmpl2 t5" using parse_follows [of n] a by blast
          then have "length (data t5) - p t5 < n"
            using m2 by (auto simp: follows_def)
          then show "parseSection n t5 sn' inv' sl' es \<noteq> None" by (rule ihs)
        qed
      qed
    qed
  qed
  show ?case using A S by blast
qed

lemma ParseStringPartials_total: "ParseStringPartials d partials \<noteq> None"
  using parse_total [of "Suc (length d)"] by (simp add: ParseStringPartials_def newTemplate_def Let_def)

lemma ParseStringPartials_config:
  "ParseStringPartials d partials = Some (Inr t) \<Longrightarrow>
     data t = d \<and> \<not> errmiss t \<and>
     partial t = (case partials of None \<Rightarrow> EmptyProvider | Some pr \<Rightarrow> pr)"
  using parse_follows [of "Suc (length d)"]
  by (fastforce simp: ParseStringPartials_def newTemplate_def Let_def follows_def split: option.splits)

subsection \<open>Scanning the chain\<close>



section \<open>Properties\<close>

lemma renderContexts_single:
  "renderContexts fuel h tmpl body [ctx] contextChain buf
     = renderElements fuel h tmpl body (ctx # contextChain) buf"
  by (cases "renderElements fuel h tmpl body (ctx # contextChain) buf")
     (auto split: option.splits)

subsection \<open>C1: the context of a section over a scalar\<close>

text \<open>
  What \<^verbatim>\<open>renderSection\<close> does in the two cases of the claim, for a chain that is not
  empty: the body is rendered once, against the chain with the value of
  \<^verbatim>\<open>contextChain[len(contextChain)-1]\<close> in front.
\<close>

lemma renderSection_truthy_scalar:
  "contextChain \<noteq> [] \<Longrightarrow> lookup contextChain name False = Inr v \<Longrightarrow> \<not> isEmpty v \<Longrightarrow>
   indirect v = Some (Val ms sh) \<Longrightarrow>
   (case sh of VBool b \<Rightarrow> True | VInt i \<Rightarrow> True | VString s \<Rightarrow> True | _ \<Rightarrow> False) \<Longrightarrow>
   renderSection fuel h tmpl name False startline body contextChain buf
     = renderElements fuel h tmpl body (last contextChain # contextChain) buf"
proof -
  assume a: "contextChain \<noteq> []" "lookup contextChain name False = Inr v" "\<not> isEmpty v"
    "indirect v = Some (Val ms sh)"
    "case sh of VBool b \<Rightarrow> True | VInt i \<Rightarrow> True | VString s \<Rightarrow> True | _ \<Rightarrow> False"
  then have "sectionContexts False v (last contextChain) = [last contextChain]"
    by (auto simp: sectionContexts_def split: shape.splits)
  then show ?thesis using a(1,2) by (simp add: renderContexts_single del: renderContexts.simps(2))
qed

lemma renderSection_inverted_empty:
  "contextChain \<noteq> [] \<Longrightarrow> lookup contextChain name False = Inr v \<Longrightarrow> isEmpty v \<Longrightarrow>
   renderSection fuel h tmpl name True startline body contextChain buf
     = renderElements fuel h tmpl body (last contextChain # contextChain) buf"
  by (simp add: sectionContexts_def renderContexts_single del: renderContexts.simps(2))

text \<open>
  C1.  The claim: a section over a non-empty value that is no list, array, struct or map,
  and an inverted section over an empty value, render their body against the unchanged
  context chain, so that every variable in the body resolves as it does right outside the
  section.  In the code the body is rendered against the chain with one more context in
  front, \<^verbatim>\<open>contextChain[len(contextChain)-1]\<close>.  \<^verbatim>\<open>lookup\<close> scans the chain from
  index 0, and \<^verbatim>\<open>renderSection\<close> itself puts the context of a section at index 0, so the
  last element is the outermost context, not the current one.  A name that an inner
  context shadows therefore resolves to the outermost value inside such a section.  The
  theorem evaluates \<^verbatim>\<open>{{#a}}{{x}}{{#t}}{{x}}{{/t}}{{/a}}\<close> on the one context
  \<open>{a: {t: true, x: "in"}, x: "out"}\<close>: right outside the section \<open>t\<close> the variable
  \<open>x\<close> is \<open>in\<close>, inside it is \<open>out\<close>.  The second template shows the same for an
  inverted section, with two structs with a field \<open>X\<close> given to \<^verbatim>\<open>Render\<close>.
\<close>

theorem renderSection_scalar_pushes_outermost:
  "(case ParseString ''{{#a}}{{x}}{{#t}}{{x}}{{/t}}{{/a}}'' of
      Some (Inr tmpl) \<Rightarrow>
        Render 0 (\<lambda>a n. Inr []) tmpl
          [Some (Val [] (VMap (Some
             [(''a'', Val [] (VInterface (Some (Val [] (VMap (Some
                 [(''t'', Val [] (VInterface (Some (Val [] (VBool True))))),
                  (''x'', Val [] (VInterface (Some (Val [] (VString ''in'')))))])))))),
              (''x'', Val [] (VInterface (Some (Val [] (VString ''out'')))))])))]
    | _ \<Rightarrow> None) = Some (''inout'', None) \<and>
   (case ParseString ''{{X}}{{^F}}{{X}}{{/F}}'' of
      Some (Inr tmpl) \<Rightarrow>
        Render 0 (\<lambda>a n. Inr []) tmpl
          [Some (Val [] (VStruct [(''X'', Val [] (VString ''in''))])),
           Some (Val [] (VStruct [(''X'', Val [] (VString ''out''))]))]
    | _ \<Rightarrow> None) = Some (''inout'', None)"
  by code_simp

subsection \<open>C2: the output of a failed render\<close>

text \<open>
  C2.  The claim: when \<^verbatim>\<open>Render\<close> returns an error, the string it returns is empty.
  \<^verbatim>\<open>Render\<close> returns \<^verbatim>\<open>buf.String(), err\<close>: the error stops the render at once, but
  what was written before it is returned with it.  \<^verbatim>\<open>RenderInLayout\<close> does discard
  the buffer (\<^verbatim>\<open>return "", err\<close>).  The theorem evaluates both on the template
  \<^verbatim>\<open>abc{{x}}def\<close> with \<^verbatim>\<open>SetErrorOnMissing\<close> and a context without \<open>x\<close>:
  \<^verbatim>\<open>Render\<close> returns \<open>abc\<close> with the error, \<^verbatim>\<open>RenderInLayout\<close> the empty string.
\<close>

theorem Render_returns_partial_output:
  "(case ParseString ''abc{{x}}def'' of
      Some (Inr tmpl) \<Rightarrow>
        (Render 0 (\<lambda>a n. Inr []) (SetErrorOnMissing tmpl) [Some (Val [] (VMap (Some [])))],
         RenderInLayout 0 (\<lambda>a n. Inr []) (SetErrorOnMissing tmpl) tmpl
           [Some (Val [] (VMap (Some [])))])
    | _ \<Rightarrow> (None, None))
   = (Some (''abc'', Some (missingVariable ''x'')),
      Some ([], Some (missingVariable ''x'')))"
  by code_simp

subsection \<open>C3: the delimiter change\<close>

text \<open>
  C3 as it is worded fails.  With two spaces between the delimiters, in
  \<^verbatim>\<open>{{=<%  %>=}}\<close>, the close delimiter becomes \<open>" %>"\<close> with the second space in
  front, not \<open>"%>"\<close>; with a tab between them the inner text has no space and the
  delimiters stay \<^verbatim>\<open>{{\<close> and \<^verbatim>\<open>}}\<close>.
\<close>

theorem delimiters_whitespace_run_counterexample:
  "splitAtWhitespaceRun (TrimSpace (slice ''=<%  %>='' 1 7)) = (''<%'', ''%>'') \<and>
   map_option (map_sum id (\<lambda>t. (otag t, ctag t))) (ParseString ''{{=<%  %>=}}'')
     = Some (Inr (''<%'', '' %>'')) \<and>
   splitAtWhitespaceRun (TrimSpace (slice (''=<%'' @ [CHR 0x09] @ ''%>='') 1 6)) = (''<%'', ''%>'') \<and>
   map_option (map_sum id (\<lambda>t. (otag t, ctag t))) (ParseString (''{{=<%'' @ [CHR 0x09] @ ''%>=}}''))
     = Some (Inr (''{{'', ''}}''))"
  by code_simp

text \<open>
  C3, amended.  In either loop, after a text and a tag whose first byte is \<open>=\<close>: a tag
  that does not end with \<open>=\<close> fails with the parse error \<open>Invalid meta tag\<close> at the
  current line; a tag of at least two bytes that ends with \<open>=\<close> is trimmed of the two
  markers and of the surrounding white space and cut at its first space (U+0020): with a
  space in the inner text, what stands before it becomes the open delimiter and all that
  follows it the close delimiter of every later read, and without one the delimiters stay
  as they are.  Nothing is said about the tag that is the one byte \<open>=\<close>.
\<close>

theorem delimiter_change_splits_at_first_space:
  "(readText tmpl = Inr (TextReadingResult tx padding may, False, tmplA) \<and>
    readTag (tmplA\<lparr>elems := elems tmplA @ [textElement tx]\<rparr>) may
      = Inr (TagReadingResult tag standalone, tmplC) \<and>
    hd tag = CHR ''='' \<longrightarrow>
      (last tag \<noteq> CHR ''='' \<longrightarrow>
         parse (Suc n) tmpl = Some (Inl (parseError (curline tmplC) ''Invalid meta tag''))) \<and>
      (last tag = CHR ''='' \<and> 2 \<le> length tag \<longrightarrow>
         parse (Suc n) tmpl =
           parse n (withDelimiters (newDelimiters tag)
                      (tmplC\<lparr>elems := withPadding standalone padding (elems tmplC)\<rparr>)))) \<and>
   (readText tmpl = Inr (TextReadingResult tx padding may, False, tmplA) \<and>
    readTag tmplA may = Inr (TagReadingResult tag standalone, tmplB) \<and>
    hd tag = CHR ''='' \<longrightarrow>
      (last tag \<noteq> CHR ''='' \<longrightarrow>
         parseSection (Suc n) tmpl sname inverted startline selems
           = Some (Inl (parseError (curline tmplB) ''Invalid meta tag''))) \<and>
      (last tag = CHR ''='' \<and> 2 \<le> length tag \<longrightarrow>
         parseSection (Suc n) tmpl sname inverted startline selems =
           parseSection n (withDelimiters (newDelimiters tag) tmplB) sname inverted startline
             (withPadding standalone padding (selems @ [textElement tx]))))"
  by (auto simp: Let_def SplitN2_def newDelimiters_def)

theorem delimiter_change_splits_at_first_space_witness:
  "parse 5 (newTemplate ''{{=<% %>=}}<%x%>'' EmptyProvider)
     = parse 4 ((newTemplate ''{{=<% %>=}}<%x%>'' EmptyProvider)
                  \<lparr>otag := ''<%'', ctag := ''%>'', p := 11,
                   elems := [textElement [], textElement []]\<rparr>) \<and>
   parse 5 (newTemplate ''{{=<%}}'' EmptyProvider) = Some (Inl (parseError 1 ''Invalid meta tag'')) \<and>
   parseSection 5 ((newTemplate ''{{#s}}{{=<% %>=}}<%/s%>'' EmptyProvider)\<lparr>p := 6\<rparr>) ''s'' False 1 []
     = parseSection 4 ((newTemplate ''{{#s}}{{=<% %>=}}<%/s%>'' EmptyProvider)
                         \<lparr>otag := ''<%'', ctag := ''%>'', p := 17\<rparr>) ''s'' False 1 [textElement []] \<and>
   map_option (map_sum id elems) (ParseString ''{{=<% %>=}}<%x%>'')
     = Some (Inr [textElement [], textElement [], textElement [], varElement ''x'' False,
                  textElement []])"
proof -
  let ?T = "newTemplate ''{{=<% %>=}}<%x%>'' EmptyProvider"
  let ?B = "newTemplate ''{{=<%}}'' EmptyProvider"
  let ?S = "(newTemplate ''{{#s}}{{=<% %>=}}<%/s%>'' EmptyProvider)\<lparr>p := 6\<rparr>"
  have t1: "readText ?T = Inr (TextReadingResult [] [] True, False, ?T\<lparr>p := 2\<rparr>)"
    by code_simp
  have t2: "readTag ((?T\<lparr>p := 2\<rparr>)\<lparr>elems := elems (?T\<lparr>p := 2\<rparr>) @ [textElement []]\<rparr>) True
      = Inr (TagReadingResult ''=<% %>='' False, ?T\<lparr>p := 11, elems := [textElement []]\<rparr>)"
    by code_simp
  have t3: "newDelimiters ''=<% %>='' = Some (''<%'', ''%>'')"
    by code_simp
  have b1: "readText ?B = Inr (TextReadingResult [] [] True, False, ?B\<lparr>p := 2\<rparr>)"
    by code_simp
  have b2: "readTag ((?B\<lparr>p := 2\<rparr>)\<lparr>elems := elems (?B\<lparr>p := 2\<rparr>) @ [textElement []]\<rparr>) True
      = Inr (TagReadingResult ''=<%'' True, ?B\<lparr>p := 7, elems := [textElement []]\<rparr>)"
    by code_simp
  have s1: "readText ?S = Inr (TextReadingResult [] [] False, False, ?S\<lparr>p := 8\<rparr>)"
    by code_simp
  have s2: "readTag (?S\<lparr>p := 8\<rparr>) False = Inr (TagReadingResult ''=<% %>='' True, ?S\<lparr>p := 17\<rparr>)"
    by code_simp
  have e: "map_option (map_sum id elems) (ParseString ''{{=<% %>=}}<%x%>'')
     = Some (Inr [textElement [], textElement [], textElement [], varElement ''x'' False,
                  textElement []])"
    by code_simp
  show ?thesis
    using delimiter_change_splits_at_first_space
        [of "?T" "[]" "[]" True "?T\<lparr>p := 2\<rparr>" "''=<% %>=''" False
            "?T\<lparr>p := 11, elems := [textElement []]\<rparr>" 4]
      delimiter_change_splits_at_first_space
        [of "?B" "[]" "[]" True "?B\<lparr>p := 2\<rparr>" "''=<%''" True
            "?B\<lparr>p := 7, elems := [textElement []]\<rparr>" 4]
      delimiter_change_splits_at_first_space
        [where tmpl = "?S" and tx = "[]" and padding = "[]" and may = False and tmplA = "?S\<lparr>p := 8\<rparr>"
           and tag = "''=<% %>=''" and standalone = True and tmplB = "?S\<lparr>p := 17\<rparr>" and n = 4
           and sname = "''s''" and inverted = False and startline = 1 and selems = "[]"]
      t1 t2 t3 b1 b2 s1 s2 e
    by (simp add: newTemplate_def)
qed

subsection \<open>C4: sections and their close tags\<close>

text \<open>
  The three rules of the claim in the loops: the end of input in an open section fails
  with the line stored in the section, \<open>startline\<close>; a close tag in a section ends it
  when the names agree and fails otherwise; a close tag outside a section fails.
\<close>

lemma section_close_rules:
  "(readText tmpl = Inr (TextReadingResult tx padding may, True, tmplA) \<longrightarrow>
      parseSection (Suc n) tmpl sname inverted startline selems
        = Some (Inl (parseError startline (''Section '' @ sname @ '' has no closing tag'')))) \<and>
   (readText tmpl = Inr (TextReadingResult tx padding may, False, tmplA) \<and>
    readTag tmplA may = Inr (TagReadingResult tag standalone, tmplB) \<and>
    hd tag = CHR ''/'' \<longrightarrow>
      parseSection (Suc n) tmpl sname inverted startline selems =
        (if TrimSpace (drop 1 tag) \<noteq> sname
         then Some (Inl (parseError (curline tmplB)
                           (''interleaved closing tag: '' @ TrimSpace (drop 1 tag))))
         else Some (Inr (tmplB, sectionElement sname inverted startline
                                  (withPadding standalone padding (selems @ [textElement tx])))))) \<and>
   (readText tmpl = Inr (TextReadingResult tx padding may, False, tmplA) \<and>
    readTag (tmplA\<lparr>elems := elems tmplA @ [textElement tx]\<rparr>) may
      = Inr (TagReadingResult tag standalone, tmplC) \<and>
    hd tag = CHR ''/'' \<longrightarrow>
      parse (Suc n) tmpl = Some (Inl (parseError (curline tmplC) ''unmatched close tag'')))"
  by (auto simp: Let_def)

text \<open>
  C4.  The claim: a close tag with another name than the open section fails, a close tag
  without an open section fails with \<open>unmatched close tag\<close>, and the end of input in an
  open section fails with the line on which the section was opened.  The first two hold
  (\<open>section_close_rules\<close>).  The line does not: \<open>startline\<close> is the line counter after
  \<^verbatim>\<open>readTag\<close> has read the opening tag, and for a standalone tag \<^verbatim>\<open>readTag\<close> has then
  already consumed the line break and counted the next line.  The theorem evaluates the
  parser on \<^verbatim>\<open>{{#a}}\<close>, a line break and \<open>x\<close>: the section is opened on line 1 and
  the error names line 2.  With the tag followed by text on its line the error names
  line 1.
\<close>

theorem unclosed_section_line:
  "ParseString (''{{#a}}'' @ [CHR 0x0A] @ ''x'')
     = Some (Inl (parseError 2 ''Section a has no closing tag'')) \<and>
   ParseString (''{{#a}}x'' @ [CHR 0x0A])
     = Some (Inl (parseError 1 ''Section a has no closing tag''))"
  by code_simp

subsection \<open>C5: the scan of the context chain\<close>



subsection \<open>C6: emptiness\<close>

text \<open>
  C6 as it is worded fails on an array of two zeros: it is the zero value of its type,
  and \<^verbatim>\<open>isEmpty\<close> answers for an array by its length alone.
\<close>

theorem zero_array_counterexample:
  "emptyAsWorded (Some (Val [] (VArray [Val [] (VInt 0), Val [] (VInt 0)]))) \<and>
   \<not> isEmpty (Some (Val [] (VArray [Val [] (VInt 0), Val [] (VInt 0)])))"
  by code_simp

lemma indirect_InterfaceIsNil: "InterfaceIsNil v \<Longrightarrow> indirect v = None"
  by (induction v rule: InterfaceIsNil.induct) auto

lemma isEmpty_indirect:
  "isEmpty v =
     (case indirect v of
        None \<Rightarrow> True
      | Some (Val ms sh) \<Rightarrow>
          (case sh of
             VArray xs \<Rightarrow> length xs = 0
           | VSlice xs \<Rightarrow> length (sliceElems xs) = 0
           | VString s \<Rightarrow> length (TrimSpace s) = 0
           | _ \<Rightarrow> IsZero (Val ms sh)))"
proof (cases "v = None \<or> InterfaceIsNil v")
  case True
  then have "indirect v = None" using indirect_InterfaceIsNil by auto
  then show ?thesis using True by (simp add: isEmpty_def)
next
  case False
  then show ?thesis by (simp add: isEmpty_def)
qed

lemma sectionContexts_nonempty:
  "(sectionContexts inverted v context \<noteq> []) = (isEmpty v = inverted)"
proof (cases "isEmpty v = inverted")
  case False
  then show ?thesis by (auto simp: sectionContexts_def)
next
  case True
  show ?thesis
  proof (cases inverted)
    case True
    then show ?thesis using \<open>isEmpty v = inverted\<close> by (simp add: sectionContexts_def)
  next
    case False
    then have ne: "\<not> isEmpty v" using True by simp
    then show ?thesis using False
      by (auto simp: sectionContexts_def isEmpty_indirect split: option.splits val.splits shape.splits)
  qed
qed

text \<open>
  C6, amended.  A value is empty if and only if, after unwrapping every pointer and
  interface layer, it is absent (invalid, a nil pointer or a nil interface), or it is an
  array or a slice of length 0, or it is a string that is empty once trimmed, or it is of
  another kind and is the zero value of its type; an array or slice with elements is never
  empty, whatever the elements.  For a chain that is not empty, \<^verbatim>\<open>renderSection\<close> renders
  the body once for each context that \<open>sectionContexts\<close> lists, and there is such a
  context if and only if the value is empty for an inverted section and not empty for a
  section.
\<close>

theorem isEmpty_by_kind:
  "isEmpty v =
     (case indirect v of
        None \<Rightarrow> True
      | Some (Val ms sh) \<Rightarrow>
          (case sh of
             VArray xs \<Rightarrow> length xs = 0
           | VSlice xs \<Rightarrow> length (sliceElems xs) = 0
           | VString s \<Rightarrow> length (TrimSpace s) = 0
           | _ \<Rightarrow> IsZero (Val ms sh))) \<and>
   (contextChain \<noteq> [] \<and> lookup contextChain name False = Inr v \<longrightarrow>
      renderSection fuel h tmpl name inverted startline body contextChain buf
        = renderContexts fuel h tmpl body (sectionContexts inverted v (last contextChain))
            contextChain buf \<and>
      (sectionContexts inverted v (last contextChain) \<noteq> []) = (isEmpty v = inverted))"
  using isEmpty_indirect [of v] sectionContexts_nonempty [of inverted v "last contextChain"]
  by simp

theorem isEmpty_by_kind_witness:
  "isEmpty (Some (Val [] (VInterface (Some (Val [] (VString ''  '')))))) \<and>
   \<not> isEmpty (Some (Val [] (VMap (Some [])))) \<and>
   renderSection 0 (\<lambda>a n. Inr []) (newTemplate [] EmptyProvider) ''s'' True 1 [textElement ''x'']
     [Some (Val [] (VMap (Some [(''s'', Val [] (VInterface (Some (Val [] (VString ''  '')))))])))] []
     = Some (''x'', None) \<and>
   renderSection 0 (\<lambda>a n. Inr []) (newTemplate [] EmptyProvider) ''s'' False 1 [textElement ''x'']
     [Some (Val [] (VMap (Some [(''s'', Val [] (VInterface (Some (Val [] (VString ''  '')))))])))] []
     = Some ([], None)"
proof -
  let ?v = "Some (Val [] (VInterface (Some (Val [] (VString ''  '')))))"
  let ?c = "[Some (Val [] (VMap (Some [(''s'', Val [] (VInterface (Some (Val [] (VString ''  '')))))])))]"
  have l: "lookup ?c ''s'' False = Inr ?v" by code_simp
  have t: "TrimSpace ''  '' = []" by code_simp
  show ?thesis
    using isEmpty_by_kind [of ?v ?c "''s''" 0 "\<lambda>a n. Inr []" "newTemplate [] EmptyProvider" True 1
        "[textElement ''x'']" "[]"]
      isEmpty_by_kind [of ?v ?c "''s''" 0 "\<lambda>a n. Inr []" "newTemplate [] EmptyProvider" False 1
        "[textElement ''x'']" "[]"]
      isEmpty_by_kind [of "Some (Val [] (VMap (Some [])))" "[]"] l t
    by (simp add: sectionContexts_def)
qed

subsection \<open>C7: the missing variable\<close>

text \<open>
  C7.  When the name of a variable tag resolves to nothing (\<^verbatim>\<open>lookup\<close> without the error
  flag returns the invalid value), \<^verbatim>\<open>renderElement\<close> returns a missing-variable error if
  and only if \<open>errmiss\<close> is set in the template, and it then has written nothing; without
  the flag it succeeds and has written nothing.  \<^verbatim>\<open>SetErrorOnMissing\<close> sets the flag, and
  a template as it comes from \<^verbatim>\<open>ParseStringPartials\<close> does not have it.
\<close>

theorem missing_variable_error_iff_configured:
  "(lookup contextChain name False = Inr None \<longrightarrow>
      ((\<exists>m. renderElement fuel h tmpl (varElement name raw) contextChain buf
             = Some (buf, Some (missingVariable m))) = errmiss tmpl) \<and>
      (\<not> errmiss tmpl \<longrightarrow>
         renderElement fuel h tmpl (varElement name raw) contextChain buf = Some (buf, None))) \<and>
   errmiss (SetErrorOnMissing tmpl) \<and>
   (ParseStringPartials d partials = Some (Inr t) \<longrightarrow> \<not> errmiss t)"
proof -
  have main: "((\<exists>m. renderElement fuel h tmpl (varElement name raw) contextChain buf
            = Some (buf, Some (missingVariable m))) = errmiss tmpl) \<and>
     (\<not> errmiss tmpl \<longrightarrow>
        renderElement fuel h tmpl (varElement name raw) contextChain buf = Some (buf, None))"
    if unres: "lookup contextChain name False = Inr None"
  proof -
    obtain m where m: "lookup contextChain name True = Inl (missingVariable m)"
      using lookup_flag [of contextChain name] unres by auto
    show ?thesis
    proof (cases "errmiss tmpl")
      case True
      then have "renderElement fuel h tmpl (varElement name raw) contextChain buf
          = Some (buf, Some (missingVariable m))"
        using m by simp
      then show ?thesis using True by blast
    next
      case False
      then have "renderElement fuel h tmpl (varElement name raw) contextChain buf = Some (buf, None)"
        using unres by simp
      then show ?thesis using False by simp
    qed
  qed
  have cfg: "ParseStringPartials d partials = Some (Inr t) \<longrightarrow> \<not> errmiss t"
    using ParseStringPartials_config [of d partials t] by blast
  show ?thesis using main cfg by (simp add: SetErrorOnMissing_def)
qed

theorem missing_variable_error_iff_configured_witness:
  "lookup [Some (Val [] (VMap (Some [(''y'', Val [] (VInt 1))])))] ''x'' False = Inr None \<and>
   renderElement 0 (\<lambda>a n. Inr []) (newTemplate ''{{x}}'' EmptyProvider) (varElement ''x'' False)
     [Some (Val [] (VMap (Some [(''y'', Val [] (VInt 1))])))] ''abc'' = Some (''abc'', None) \<and>
   (\<exists>m. renderElement 0 (\<lambda>a n. Inr []) (SetErrorOnMissing (newTemplate ''{{x}}'' EmptyProvider))
          (varElement ''x'' False)
          [Some (Val [] (VMap (Some [(''y'', Val [] (VInt 1))])))] ''abc''
        = Some (''abc'', Some (missingVariable m)))"
proof -
  let ?c = "[Some (Val [] (VMap (Some [(''y'', Val [] (VInt 1))])))]"
  have l: "lookup ?c ''x'' False = Inr None" by code_simp
  have e: "\<not> errmiss (newTemplate ''{{x}}'' EmptyProvider)"
    "errmiss (SetErrorOnMissing (newTemplate ''{{x}}'' EmptyProvider))"
    by (simp_all add: newTemplate_def SetErrorOnMissing_def)
  from missing_variable_error_iff_configured
        [of ?c "''x''" 0 "\<lambda>a n. Inr []" "newTemplate ''{{x}}'' EmptyProvider" False "''abc''"] l e
  have a: "renderElement 0 (\<lambda>a n. Inr []) (newTemplate ''{{x}}'' EmptyProvider) (varElement ''x'' False)
     ?c ''abc'' = Some (''abc'', None)"
    by blast
  from missing_variable_error_iff_configured
        [of ?c "''x''" 0 "\<lambda>a n. Inr []" "SetErrorOnMissing (newTemplate ''{{x}}'' EmptyProvider)"
            False "''abc''"] l e
  have b: "\<exists>m. renderElement 0 (\<lambda>a n. Inr []) (SetErrorOnMissing (newTemplate ''{{x}}'' EmptyProvider))
          (varElement ''x'' False) ?c ''abc'' = Some (''abc'', Some (missingVariable m))"
    by blast
  show ?thesis using l a b by blast
qed

subsection \<open>C8: partials\<close>

lemma indentLines_inside:
  "CHR 0x0A \<notin> set line \<Longrightarrow>
   indentLines indent False (line @ CHR 0x0A # rest) = line @ CHR 0x0A # indentLines indent True rest"
  by (induction line) auto

lemma indentLines_inside_last:
  "CHR 0x0A \<notin> set line \<Longrightarrow> indentLines indent False line = line"
  by (induction line) auto

lemma indentLines_line:
  "CHR 0x0A \<notin> set line \<Longrightarrow>
   indentLines indent True (line @ CHR 0x0A # rest)
     = (if line = [] then [] else indent @ line) @ CHR 0x0A # indentLines indent True rest"
  by (cases line) (auto simp: indentLines_inside)

lemma indentLines_last_line:
  "CHR 0x0A \<notin> set line \<Longrightarrow>
   indentLines indent True line = (if line = [] then [] else indent @ line)"
  by (cases line) (auto simp: indentLines_inside_last)

text \<open>
  C8.  Rendering a partial element asks the provider of the element for the source under
  the element's name, with the state the provider has at this render.  An error of the
  provider ends the render with that error.  Otherwise the indentation of the element is
  put in front of every line of the source that is not empty, the result is compiled with
  the same provider (the compilation always returns), a parse error ends the render, and the
  compiled template is rendered against the same context chain into the same buffer.  A
  line is a maximal run of bytes without a line feed.
\<close>

theorem partial_rendered_from_provider:
  "(Get h prov name = Inl err \<longrightarrow>
      renderElement (Suc fuel) h tmpl (partialElement name indent prov) contextChain buf
        = Some (buf, Some err)) \<and>
   (Get h prov name = Inr src \<longrightarrow>
      (\<exists>r. ParseStringPartials (indentLines indent True src) (Some prov) = Some r \<and>
           (case r of
              Inl err \<Rightarrow>
                renderElement (Suc fuel) h tmpl (partialElement name indent prov) contextChain buf
                  = Some (buf, Some err)
            | Inr sub \<Rightarrow>
                partial sub = prov \<and>
                renderElement (Suc fuel) h tmpl (partialElement name indent prov) contextChain buf
                  = renderTemplate fuel h sub contextChain buf))) \<and>
   (CHR 0x0A \<notin> set line \<longrightarrow>
      indentLines indent True (line @ CHR 0x0A # rest)
        = (if line = [] then [] else indent @ line) @ CHR 0x0A # indentLines indent True rest \<and>
      indentLines indent True line = (if line = [] then [] else indent @ line))"
proof -
  have a: "Get h prov name = Inl err \<longrightarrow>
      renderElement (Suc fuel) h tmpl (partialElement name indent prov) contextChain buf
        = Some (buf, Some err)"
    by (simp add: getPartials_def)
  have b: "\<exists>r. ParseStringPartials (indentLines indent True src) (Some prov) = Some r \<and>
           (case r of
              Inl err \<Rightarrow>
                renderElement (Suc fuel) h tmpl (partialElement name indent prov) contextChain buf
                  = Some (buf, Some err)
            | Inr sub \<Rightarrow>
                partial sub = prov \<and>
                renderElement (Suc fuel) h tmpl (partialElement name indent prov) contextChain buf
                  = renderTemplate fuel h sub contextChain buf)"
    if g: "Get h prov name = Inr src"
  proof -
    obtain r where r: "ParseStringPartials (indentLines indent True src) (Some prov) = Some r"
      using ParseStringPartials_total [of "indentLines indent True src" "Some prov"] by auto
    show ?thesis
    proof (cases r)
      case (Inl e)
      then show ?thesis using r g by (simp add: getPartials_def)
    next
      case (Inr sub)
      then have "partial sub = prov"
        using ParseStringPartials_config [of "indentLines indent True src" "Some prov" sub] r
        by simp
      then show ?thesis using r g Inr by (simp add: getPartials_def renderTemplate_def)
    qed
  qed
  show ?thesis using a b indentLines_line indentLines_last_line by blast
qed

theorem partial_rendered_from_provider_witness:
  "(case ParseStringPartials (''x'' @ [CHR 0x0A] @ ''  {{>p}}'' @ [CHR 0x0A] @ ''y'') (Some (Provider 0)) of
      Some (Inr t) \<Rightarrow>
        (elems t,
         Render 1 (\<lambda>a. StaticProvider_Get (Some [(''p'', ''l1'' @ [CHR 0x0A, CHR 0x0A] @ ''{{v}}'')])) t
           [Some (Val [] (VMap (Some [(''v'', Val [] (VString ''one''))])))],
         Render 1 (\<lambda>a. StaticProvider_Get (Some [(''p'', ''{{v}}{{v}}'')])) t
           [Some (Val [] (VMap (Some [(''v'', Val [] (VString ''two''))])))],
         Render 1 (\<lambda>a. StaticProvider_Get (Some [(''q'', ''z'')])) t
           [Some (Val [] (VMap (Some [(''v'', Val [] (VString ''two''))])))])
    | _ \<Rightarrow> ([], None, None, None))
   = ([textElement (''x'' @ [CHR 0x0A]), partialElement ''p'' ''  '' (Provider 0), textElement ''y''],
      Some (''x'' @ [CHR 0x0A] @ ''  l1'' @ [CHR 0x0A, CHR 0x0A] @ ''  oney'', None),
      Some (''x'' @ [CHR 0x0A] @ ''  twotwoy'', None),
      Some (''x'' @ [CHR 0x0A], Some (ErrPartialNotFound ''p''))) \<and>
   indentLines ''  '' True (''l1'' @ [CHR 0x0A, CHR 0x0A] @ ''{{v}}'')
     = ''  l1'' @ [CHR 0x0A, CHR 0x0A] @ ''  {{v}}'' \<and>
   renderElement (Suc 0) (\<lambda>a. StaticProvider_Get (Some [(''q'', ''z'')]))
       (newTemplate [] (Provider 0)) (partialElement ''p'' ''  '' (Provider 0))
       [Some (Val [] (VMap (Some [])))] ''abc''
     = Some (''abc'', Some (ErrPartialNotFound ''p'')) \<and>
   (\<exists>r. ParseStringPartials (indentLines ''  '' True ''z'') (Some (Provider 0)) = Some r \<and>
        (case r of
           Inl err \<Rightarrow>
             renderElement (Suc 0) (\<lambda>a. StaticProvider_Get (Some [(''q'', ''z'')]))
                 (newTemplate [] (Provider 0)) (partialElement ''q'' ''  '' (Provider 0))
                 [Some (Val [] (VMap (Some [])))] ''abc''
               = Some (''abc'', Some err)
         | Inr sub \<Rightarrow>
             partial sub = Provider 0 \<and>
             renderElement (Suc 0) (\<lambda>a. StaticProvider_Get (Some [(''q'', ''z'')]))
                 (newTemplate [] (Provider 0)) (partialElement ''q'' ''  '' (Provider 0))
                 [Some (Val [] (VMap (Some [])))] ''abc''
               = renderTemplate 0 (\<lambda>a. StaticProvider_Get (Some [(''q'', ''z'')])) sub
                   [Some (Val [] (VMap (Some [])))] ''abc''))"
proof -
  have e: "(case ParseStringPartials (''x'' @ [CHR 0x0A] @ ''  {{>p}}'' @ [CHR 0x0A] @ ''y'') (Some (Provider 0)) of
      Some (Inr t) \<Rightarrow>
        (elems t,
         Render 1 (\<lambda>a. StaticProvider_Get (Some [(''p'', ''l1'' @ [CHR 0x0A, CHR 0x0A] @ ''{{v}}'')])) t
           [Some (Val [] (VMap (Some [(''v'', Val [] (VString ''one''))])))],
         Render 1 (\<lambda>a. StaticProvider_Get (Some [(''p'', ''{{v}}{{v}}'')])) t
           [Some (Val [] (VMap (Some [(''v'', Val [] (VString ''two''))])))],
         Render 1 (\<lambda>a. StaticProvider_Get (Some [(''q'', ''z'')])) t
           [Some (Val [] (VMap (Some [(''v'', Val [] (VString ''two''))])))])
    | _ \<Rightarrow> ([], None, None, None))
   = ([textElement (''x'' @ [CHR 0x0A]), partialElement ''p'' ''  '' (Provider 0), textElement ''y''],
      Some (''x'' @ [CHR 0x0A] @ ''  l1'' @ [CHR 0x0A, CHR 0x0A] @ ''  oney'', None),
      Some (''x'' @ [CHR 0x0A] @ ''  twotwoy'', None),
      Some (''x'' @ [CHR 0x0A], Some (ErrPartialNotFound ''p'')))"
    by code_simp
  have i: "indentLines ''  '' True (''l1'' @ [CHR 0x0A, CHR 0x0A] @ ''{{v}}'')
     = ''  l1'' @ [CHR 0x0A, CHR 0x0A] @ ''  {{v}}''"
    by code_simp
  have g1: "Get (\<lambda>a. StaticProvider_Get (Some [(''q'', ''z'')])) (Provider 0) ''p''
      = Inl (ErrPartialNotFound ''p'')"
    by (simp add: StaticProvider_Get_def)
  have g2: "Get (\<lambda>a. StaticProvider_Get (Some [(''q'', ''z'')])) (Provider 0) ''q'' = Inr ''z''"
    by (simp add: StaticProvider_Get_def)
  note w1 = partial_rendered_from_provider
      [where h = "\<lambda>a. StaticProvider_Get (Some [(''q'', ''z'')])" and prov = "Provider 0"
         and name = "''p''" and err = "ErrPartialNotFound ''p''" and fuel = 0
         and tmpl = "newTemplate [] (Provider 0)" and indent = "''  ''"
         and contextChain = "[Some (Val [] (VMap (Some [])))]" and buf = "''abc''"]
  note w2 = partial_rendered_from_provider
      [where h = "\<lambda>a. StaticProvider_Get (Some [(''q'', ''z'')])" and prov = "Provider 0"
         and name = "''q''" and src = "''z''" and fuel = 0
         and tmpl = "newTemplate [] (Provider 0)" and indent = "''  ''"
         and contextChain = "[Some (Val [] (VMap (Some [])))]" and buf = "''abc''"]
  from w1 g1 have a: "renderElement (Suc 0) (\<lambda>a. StaticProvider_Get (Some [(''q'', ''z'')]))
       (newTemplate [] (Provider 0)) (partialElement ''p'' ''  '' (Provider 0))
       [Some (Val [] (VMap (Some [])))] ''abc''
     = Some (''abc'', Some (ErrPartialNotFound ''p''))"
    by blast
  from w2 g2 have b: "\<exists>r. ParseStringPartials (indentLines ''  '' True ''z'') (Some (Provider 0)) = Some r \<and>
        (case r of
           Inl err \<Rightarrow>
             renderElement (Suc 0) (\<lambda>a. StaticProvider_Get (Some [(''q'', ''z'')]))
                 (newTemplate [] (Provider 0)) (partialElement ''q'' ''  '' (Provider 0))
                 [Some (Val [] (VMap (Some [])))] ''abc''
               = Some (''abc'', Some err)
         | Inr sub \<Rightarrow>
             partial sub = Provider 0 \<and>
             renderElement (Suc 0) (\<lambda>a. StaticProvider_Get (Some [(''q'', ''z'')]))
                 (newTemplate [] (Provider 0)) (partialElement ''q'' ''  '' (Provider 0))
                 [Some (Val [] (VMap (Some [])))] ''abc''
               = renderTemplate 0 (\<lambda>a. StaticProvider_Get (Some [(''q'', ''z'')])) sub
                   [Some (Val [] (VMap (Some [])))] ''abc'')"
    by blast
  show ?thesis using e i a b by blast
qed

subsection \<open>C9: the name of a section is looked up without the error\<close>

text \<open>
  What \<^verbatim>\<open>renderSection\<close> does with a name that resolves to nothing.  It looks the name up
  with \<open>errMissing = False\<close>, and that lookup never returns a missing-variable error,
  whatever the \<open>errmiss\<close> of the template.  For a chain that is not empty, when the name
  resolves to nothing (a variable tag of the name would fail with the missing-variable
  error under \<^verbatim>\<open>SetErrorOnMissing\<close>), a section writes nothing and succeeds, and an
  inverted section renders its body, against the chain with its last context in front.
\<close>

lemma renderSection_unresolved_name:
  "(\<forall>m'. lookup contextChain name False \<noteq> Inl (missingVariable m')) \<and>
   (contextChain \<noteq> [] \<and> lookup contextChain name True = Inl (missingVariable m) \<longrightarrow>
      renderSection fuel h tmpl name False startline body contextChain buf = Some (buf, None) \<and>
      renderSection fuel h tmpl name True startline body contextChain buf
        = renderElements fuel h tmpl body (last contextChain # contextChain) buf)"
proof -
  have main: "renderSection fuel h tmpl name False startline body contextChain buf = Some (buf, None) \<and>
     renderSection fuel h tmpl name True startline body contextChain buf
       = renderElements fuel h tmpl body (last contextChain # contextChain) buf"
    if a: "contextChain \<noteq> []" "lookup contextChain name True = Inl (missingVariable m)"
  proof -
    have "lookup contextChain name False = Inr None"
    proof (rule ccontr)
      assume "lookup contextChain name False \<noteq> Inr None"
      then have "lookup contextChain name True = lookup contextChain name False"
        using lookup_flag [of contextChain name] by blast
      then have "lookup contextChain name False = Inl (missingVariable m)"
        using a by simp
      then show False using lookup_flag [of contextChain name] by blast
    qed
    then show ?thesis
      using a by (simp add: sectionContexts_def isEmpty_def renderContexts_single
                       del: renderContexts.simps(2))
  qed
  show ?thesis using main lookup_flag [of contextChain name] by blast
qed

lemma renderSection_unresolved_name_example:
  "lookup [Some (Val [] (VMap (Some [(''y'', Val [] (VInt 1))])))] ''x'' True
     = Inl (missingVariable ''x'') \<and>
   renderSection 0 (\<lambda>a n. Inr []) (SetErrorOnMissing (newTemplate [] EmptyProvider)) ''x'' False 1
     [textElement ''body''] [Some (Val [] (VMap (Some [(''y'', Val [] (VInt 1))])))] ''abc''
     = Some (''abc'', None) \<and>
   renderSection 0 (\<lambda>a n. Inr []) (SetErrorOnMissing (newTemplate [] EmptyProvider)) ''x'' True 1
     [textElement ''body''] [Some (Val [] (VMap (Some [(''y'', Val [] (VInt 1))])))] ''abc''
     = Some (''abcbody'', None)"
  by code_simp

text \<open>
  C9.  The claim: for every template, also one configured with \<^verbatim>\<open>SetErrorOnMissing\<close>, a
  section or inverted section whose name resolves to nothing causes no missing-variable
  error; the value is treated as empty, so the body of a section is skipped and the body
  of an inverted section is rendered.  The first half holds: the lookup of
  \<^verbatim>\<open>renderSection\<close> never returns the missing-variable error.  The second half fails for
  a render without a context.  \<^verbatim>\<open>tmpl.Render()\<close> builds an empty context chain, in which
  every name resolves to nothing; right after the lookup, before the value is tested,
  \<^verbatim>\<open>renderSection\<close> evaluates \<^verbatim>\<open>contextChain[len(contextChain)-1]\<close>, which panics with
  an index out of range on the empty chain.  The theorem evaluates \<^verbatim>\<open>a{{#s}}x{{/s}}b\<close>
  and \<^verbatim>\<open>a{{^s}}x{{/s}}b\<close> rendered without a context, with and without
  \<^verbatim>\<open>SetErrorOnMissing\<close>: the lookup of \<open>s\<close> returns the invalid value and no error, and
  each of the four renders stops in the panic after the text \<open>a\<close>, where the claim has
  \<open>ab\<close> for the section and \<open>axb\<close> for the inverted section.
\<close>

theorem section_without_context_panics:
  "(lookup [] ''s'' False,
    (case (ParseString ''a{{#s}}x{{/s}}b'', ParseString ''a{{^s}}x{{/s}}b'') of
       (Some (Inr tmplA), Some (Inr tmplB)) \<Rightarrow>
         [Render 0 (\<lambda>a n. Inr []) tmplA [],
          Render 0 (\<lambda>a n. Inr []) (SetErrorOnMissing tmplA) [],
          Render 0 (\<lambda>a n. Inr []) tmplB [],
          Render 0 (\<lambda>a n. Inr []) (SetErrorOnMissing tmplB) []]
     | _ \<Rightarrow> []))
   = (Inr None,
      [Some (''a'', Some (panic ''index out of range [-1]'')),
       Some (''a'', Some (panic ''index out of range [-1]'')),
       Some (''a'', Some (panic ''index out of range [-1]'')),
       Some (''a'', Some (panic ''index out of range [-1]''))])"
  by code_simp

subsection \<open>C10: a tag that opens a brace and does not close it\<close>

text \<open>
  C10.  In either loop, after a text and a tag that starts with \<open>{\<close> and does not end
  with \<open>}\<close>, the loop goes on with the state after the tag: only the text in front of
  the tag, and its padding unless the tag is standalone, have been appended; no element
  stands for the tag and no error is returned.
\<close>

theorem brace_tag_without_closing_brace_is_dropped:
  "(readText tmpl = Inr (TextReadingResult tx padding may, False, tmplA) \<and>
    readTag (tmplA\<lparr>elems := elems tmplA @ [textElement tx]\<rparr>) may
      = Inr (TagReadingResult tag standalone, tmplC) \<and>
    hd tag = CHR ''{'' \<and> last tag \<noteq> CHR ''}'' \<longrightarrow>
      parse (Suc n) tmpl = parse n (tmplC\<lparr>elems := withPadding standalone padding (elems tmplC)\<rparr>)) \<and>
   (readText tmpl = Inr (TextReadingResult tx padding may, False, tmplA) \<and>
    readTag tmplA may = Inr (TagReadingResult tag standalone, tmplB) \<and>
    hd tag = CHR ''{'' \<and> last tag \<noteq> CHR ''}'' \<longrightarrow>
      parseSection (Suc n) tmpl sname inverted startline selems =
        parseSection n tmplB sname inverted startline
          (withPadding standalone padding (selems @ [textElement tx])))"
  by (auto simp: Let_def)

theorem brace_tag_without_closing_brace_is_dropped_witness:
  "parse 5 (newTemplate ''a {{ {x }} b'' EmptyProvider)
     = parse 4 ((newTemplate ''a {{ {x }} b'' EmptyProvider)\<lparr>p := 10, elems := [textElement ''a '']\<rparr>) \<and>
   parseSection 5 ((newTemplate ''{{#s}}{{ {x }}{{/s}}'' EmptyProvider)\<lparr>p := 6\<rparr>) ''s'' False 1 []
     = parseSection 4 ((newTemplate ''{{#s}}{{ {x }}{{/s}}'' EmptyProvider)\<lparr>p := 14\<rparr>)
         ''s'' False 1 [textElement []] \<and>
   map_option (map_sum id elems) (ParseString ''a {{ {x }} b'')
     = Some (Inr [textElement ''a '', textElement '' b'']) \<and>
   (case ParseString ''a {{ {x }} b'' of
      Some (Inr t) \<Rightarrow> Render 0 (\<lambda>a n. Inr []) t
                        [Some (Val [] (VMap (Some [(''x'', Val [] (VString ''X''))])))]
    | _ \<Rightarrow> None) = Some (''a  b'', None)"
proof -
  let ?T = "newTemplate ''a {{ {x }} b'' EmptyProvider"
  let ?S = "(newTemplate ''{{#s}}{{ {x }}{{/s}}'' EmptyProvider)\<lparr>p := 6\<rparr>"
  have t1: "readText ?T = Inr (TextReadingResult ''a '' [] False, False, ?T\<lparr>p := 4\<rparr>)"
    by code_simp
  have t2: "readTag ((?T\<lparr>p := 4\<rparr>)\<lparr>elems := elems (?T\<lparr>p := 4\<rparr>) @ [textElement ''a '']\<rparr>) False
      = Inr (TagReadingResult ''{x'' True, ?T\<lparr>p := 10, elems := [textElement ''a '']\<rparr>)"
    by code_simp
  have s1: "readText ?S = Inr (TextReadingResult [] [] False, False, ?S\<lparr>p := 8\<rparr>)"
    by code_simp
  have s2: "readTag (?S\<lparr>p := 8\<rparr>) False = Inr (TagReadingResult ''{x'' True, ?S\<lparr>p := 14\<rparr>)"
    by code_simp
  have e: "map_option (map_sum id elems) (ParseString ''a {{ {x }} b'')
     = Some (Inr [textElement ''a '', textElement '' b''])"
    by code_simp
  have r: "(case ParseString ''a {{ {x }} b'' of
      Some (Inr t) \<Rightarrow> Render 0 (\<lambda>a n. Inr []) t
                        [Some (Val [] (VMap (Some [(''x'', Val [] (VString ''X''))])))]
    | _ \<Rightarrow> None) = Some (''a  b'', None)"
    by code_simp
  show ?thesis
    using brace_tag_without_closing_brace_is_dropped
        [where tmpl = "?T" and tx = "''a ''" and padding = "[]" and may = False
           and tmplA = "?T\<lparr>p := 4\<rparr>" and tag = "''{x''" and standalone = True
           and tmplC = "?T\<lparr>p := 10, elems := [textElement ''a '']\<rparr>" and n = 4]
      brace_tag_without_closing_brace_is_dropped
        [where tmpl = "?S" and tx = "[]" and padding = "[]" and may = False
           and tmplA = "?S\<lparr>p := 8\<rparr>" and tag = "''{x''" and standalone = True
           and tmplB = "?S\<lparr>p := 14\<rparr>" and n = 4
           and sname = "''s''" and inverted = False and startline = 1 and selems = "[]"]
      t1 t2 s1 s2 e r
    by (simp add: newTemplate_def)
qed

end
